theory Spec2Isabelle
  imports Complex_Main "HOL-Library.Word"
begin

section \<open>Strings of the JavaScript sources\<close>

text \<open>
  A JavaScript string is a sequence of UTF-16 code units; \<open>length\<close>, \<open>substring\<close> and
  regular expressions without the \<open>u\<close> flag all count and match code units. A string is
  therefore a list of 16-bit words, and \<open>undefined\<close> (a missing property of a feed item)
  is \<open>None\<close> of an option.
\<close>

type_synonym jschar = "16 word"
type_synonym jsstring = "jschar list"

definition js :: "string \<Rightarrow> jsstring" where
  "js s = map (\<lambda>c. of_nat (of_char c)) s"

text \<open>Truthiness of a possibly undefined string, and the operator \<open>a || b\<close> on such values.\<close>

fun truthy :: "jsstring option \<Rightarrow> bool" where
  "truthy None = False"
| "truthy (Some s) = (s \<noteq> [])"

definition js_or :: "jsstring option \<Rightarrow> jsstring option \<Rightarrow> jsstring option" where
  "js_or a b = (if truthy a then a else b)"

text \<open>
  The character classes of the regular expressions: \<open>\s\<close> (which is also what
  \<open>String.prototype.trim\<close> removes), \<open>\w\<close>, and the punctuation listed in
  \<open>/[^\w\s.,!?;:()\-"']/g\<close>.
\<close>

definition is_space :: "jschar \<Rightarrow> bool" where
  "is_space c \<longleftrightarrow>
     c \<in> {0x09, 0x0A, 0x0B, 0x0C, 0x0D, 0x20, 0xA0, 0x1680, 0x2028, 0x2029, 0x202F,
          0x205F, 0x3000, 0xFEFF}
     \<or> (0x2000 \<le> c \<and> c \<le> 0x200A)"

definition is_word :: "jschar \<Rightarrow> bool" where
  "is_word c \<longleftrightarrow>
     (0x30 \<le> c \<and> c \<le> 0x39) \<or> (0x41 \<le> c \<and> c \<le> 0x5A) \<or> (0x61 \<le> c \<and> c \<le> 0x7A)
     \<or> c = 0x5F"

definition is_basic_punct :: "jschar \<Rightarrow> bool" where
  "is_basic_punct c \<longleftrightarrow>
     c \<in> {0x2E, 0x2C, 0x21, 0x3F, 0x3B, 0x3A, 0x28, 0x29, 0x2D, 0x22, 0x27}"

definition kept_char :: "jschar \<Rightarrow> bool" where
  "kept_char c \<longleftrightarrow> is_word c \<or> is_space c \<or> is_basic_punct c"


section \<open>ContentNormalizer: \<open>cleanText\<close>\<close>

text \<open>
  \<open>.replace(/<[^>]*>/g, '')\<close>: matches are found left to right. A match starts at a
  \<open><\<close> and ends at the first \<open>>\<close> after it; when no \<open>>\<close> follows, there is no match at
  this \<open><\<close> and the character stays.
\<close>

function strip_tags :: "jsstring \<Rightarrow> jsstring" where
  "strip_tags [] = []"
| "strip_tags (c # cs) =
     (if c = 0x3C \<and> 0x3E \<in> set cs
      then strip_tags (tl (dropWhile (\<lambda>x. x \<noteq> 0x3E) cs))
      else c # strip_tags cs)"
  by pat_completeness auto
termination
proof (relation "measure length")
  fix c :: jschar and cs :: jsstring
  have "length (dropWhile (\<lambda>x. x \<noteq> 0x3E) cs) \<le> length cs"
    by (rule length_dropWhile_le)
  then show "(tl (dropWhile (\<lambda>x. x \<noteq> 0x3E) cs), c # cs) \<in> measure length"
    by simp
qed simp_all

text \<open>\<open>.replace(/\s+/g, ' ')\<close>: every maximal run of whitespace becomes one space.\<close>

function collapse_ws :: "jsstring \<Rightarrow> jsstring" where
  "collapse_ws [] = []"
| "collapse_ws (c # cs) =
     (if is_space c then 0x20 # collapse_ws (dropWhile is_space cs)
      else c # collapse_ws cs)"
  by pat_completeness auto
termination
proof (relation "measure length")
  fix c :: jschar and cs :: jsstring
  have "length (dropWhile is_space cs) \<le> length cs"
    by (rule length_dropWhile_le)
  then show "(dropWhile is_space cs, c # cs) \<in> measure length"
    by simp
qed simp_all

text \<open>\<open>.replace(/[^\w\s.,!?;:()\-"']/g, '')\<close> and \<open>.trim()\<close>.\<close>

definition remove_special :: "jsstring \<Rightarrow> jsstring" where
  "remove_special s = filter kept_char s"

definition trim :: "jsstring \<Rightarrow> jsstring" where
  "trim s = rev (dropWhile is_space (rev (dropWhile is_space s)))"

definition cleanText :: "jsstring \<Rightarrow> jsstring" where
  "cleanText text =
     (if text = [] then []
      else trim (remove_special (collapse_ws (strip_tags text))))"

text \<open>A run of two or more consecutive whitespace characters.\<close>

fun has_ws_run :: "jsstring \<Rightarrow> bool" where
  "has_ws_run (a # b # cs) = (is_space a \<and> is_space b \<or> has_ws_run (b # cs))"
| "has_ws_run _ = False"


section \<open>Feed items, articles and \<open>processRSSItem\<close>\<close>

text \<open>
  The fields of a parsed feed item that \<open>processRSSItem\<close> reads for the id, the content,
  the title, the url and the date. The article record keeps the fields that the
  deduplication and the storage read; \<open>author\<close>, \<open>tags\<close>, \<open>summary\<close>, \<open>wordCount\<close>,
  \<open>language\<close> and \<open>mediaUrl\<close> are computed from the item and the final content by
  helpers that neither fail nor change the other fields, and are left out.
\<close>

record rss_item =
  item_link :: "jsstring option"
  item_guid :: "jsstring option"
  item_title :: "jsstring option"
  item_contentSnippet :: "jsstring option"
  item_content :: "jsstring option"
  item_description :: "jsstring option"
  item_pubDate :: "jsstring option"
  item_isoDate :: "jsstring option"

record rss_source =
  src_name :: jsstring
  src_url :: jsstring
  src_category :: jsstring
  src_region :: "jsstring option"

record article =
  article_id :: jsstring
  article_title :: jsstring
  article_content :: jsstring
  article_url :: jsstring
  article_publishedAt :: jsstring
  article_source :: jsstring
  article_category :: jsstring
  article_region :: jsstring

text \<open>
  What ingestion takes from outside the repository: the MD5 digest in hexadecimal
  (\<open>crypto.createHash('md5').update(s).digest('hex')\<close>), the feed parser (\<open>None\<close> when
  \<open>parseURL\<close> throws), the text that the selector cascade of \<open>scrapeFullArticle\<close> extracts
  from the fetched page (\<open>None\<close> when the request or the parsing throws), the clock, and
  \<open>String.prototype.toLowerCase\<close>.
\<close>

record ingest_env =
  md5hex :: "jsstring \<Rightarrow> jsstring"
  parseURL :: "jsstring \<Rightarrow> rss_item list option"
  page_text :: "jsstring \<Rightarrow> jsstring option"
  now_iso :: jsstring
  toLowerCase :: "jsstring \<Rightarrow> jsstring"

text \<open>The end of \<open>scrapeFullArticle\<close>: clean, limit to 5000 characters, require more than 200.\<close>

definition scrapeFullArticle :: "ingest_env \<Rightarrow> jsstring \<Rightarrow> jsstring option" where
  "scrapeFullArticle env url =
     (case page_text env url of
        None \<Rightarrow> None
      | Some raw \<Rightarrow>
          (let content = cleanText raw;
               content = (if length content > 5000 then take 5000 content @ js ''...''
                          else content)
           in if length content > 200 then Some content else None))"

text \<open>
  The content of an item before the length check of \<open>processRSSItem\<close>: the first truthy of
  \<open>contentSnippet\<close>, \<open>content\<close>, \<open>description\<close>, replaced by the scraped page when it is
  shorter than 200 characters, the item has a link and the page gave more; then cleaned.
\<close>

definition raw_content :: "rss_item \<Rightarrow> jsstring" where
  "raw_content item =
     (case js_or (js_or (js_or (item_contentSnippet item) (item_content item))
                   (item_description item)) (Some []) of
        None \<Rightarrow> [] | Some s \<Rightarrow> s)"

definition cleaned_content :: "ingest_env \<Rightarrow> rss_item \<Rightarrow> jsstring" where
  "cleaned_content env item =
     (let content = raw_content item;
          content =
            (case item_link item of
               None \<Rightarrow> content
             | Some link \<Rightarrow>
                 if length content < 200 \<and> link \<noteq> []
                 then (case scrapeFullArticle env link of
                         None \<Rightarrow> content
                       | Some fullContent \<Rightarrow>
                           if fullContent \<noteq> [] \<and> length fullContent > length content
                           then fullContent else content)
                 else content)
      in cleanText content)"

text \<open>
  \<open>item.link || item.guid || item.title\<close>: the first truthy of the three, else the value
  of \<open>title\<close> itself (the empty string or \<open>undefined\<close>).
\<close>

definition id_key :: "rss_item \<Rightarrow> jsstring option" where
  "id_key item = js_or (js_or (item_link item) (item_guid item)) (item_title item)"

text \<open>
  \<open>processRSSItem\<close> of \<open>newsIngestionService.js\<close>. \<open>update(undefined)\<close> throws, the
  surrounding \<open>try\<close> catches it and the item yields \<open>null\<close>; an item whose cleaned content
  is shorter than 100 characters yields \<open>null\<close> too. The file \<open>newsIngestion.js\<close> holds an
  earlier version of the class with the same \<open>cleanText\<close> and the same id; it has no
  limit on the content and takes 20 items of a feed.
\<close>

definition or_else :: "jsstring option \<Rightarrow> jsstring \<Rightarrow> jsstring" where
  "or_else a d = (case js_or a (Some d) of None \<Rightarrow> d | Some s \<Rightarrow> s)"

definition processRSSItem :: "ingest_env \<Rightarrow> rss_item \<Rightarrow> rss_source \<Rightarrow> article option" where
  "processRSSItem env item source =
     (case id_key item of
        None \<Rightarrow> None
      | Some key \<Rightarrow>
          (let articleId = md5hex env key;
               content = cleaned_content env item
           in if length content < 100 then None
              else
                (let content = (if length content > 6000 then take 6000 content @ js ''...''
                                else content)
                 in Some \<lparr> article_id = articleId,
                           article_title = cleanText (or_else (item_title item) (js ''Untitled'')),
                           article_content = content,
                           article_url = or_else (item_link item) [],
                           article_publishedAt =
                             or_else (js_or (item_pubDate item) (item_isoDate item)) (now_iso env),
                           article_source = src_name source,
                           article_category = src_category source,
                           article_region = or_else (src_region source) (js ''Unknown'') \<rparr>)))"

text \<open>\<open>ingestFromRSS\<close>: at most the first 15 items of the feed; a feed that fails gives no article.\<close>

definition ingestFromRSS :: "ingest_env \<Rightarrow> rss_source \<Rightarrow> article list" where
  "ingestFromRSS env source =
     (case parseURL env (src_url source) of
        None \<Rightarrow> []
      | Some items \<Rightarrow> List.map_filter (\<lambda>item. processRSSItem env item source) (take 15 items))"


section \<open>IngestionOrchestrator\<close>

text \<open>
  \<open>ingestAllSources\<close> collects what every source gives, in order. It is the function that
  the admin route calls.
\<close>

definition ingestAllSources_collect :: "ingest_env \<Rightarrow> rss_source list \<Rightarrow> article list" where
  "ingestAllSources_collect env rssSources = concat (map (ingestFromRSS env) rssSources)"

text \<open>
  \<open>ingestWithDeduplication\<close>: the callback of \<open>articles.filter\<close> reads and updates the two
  sets \<open>seenUrls\<close> and \<open>seenTitles\<close>, which live across all sources of the run.
\<close>

definition titleKey :: "ingest_env \<Rightarrow> article \<Rightarrow> jsstring" where
  "titleKey env a = filter (\<lambda>c. is_word c \<or> is_space c) (toLowerCase env (article_title a))"

definition urlKey :: "article \<Rightarrow> jsstring" where
  "urlKey a = article_url a"

record seen =
  seenUrls :: "jsstring set"
  seenTitles :: "jsstring set"

fun filter_unique :: "ingest_env \<Rightarrow> seen \<Rightarrow> article list \<Rightarrow> article list \<times> seen" where
  "filter_unique env s [] = ([], s)"
| "filter_unique env s (a # as) =
     (if urlKey a \<in> seenUrls s \<or> titleKey env a \<in> seenTitles s
      then filter_unique env s as
      else (let s' = \<lparr> seenUrls = insert (urlKey a) (seenUrls s),
                       seenTitles = insert (titleKey env a) (seenTitles s) \<rparr>;
                (rest, s'') = filter_unique env s' as
            in (a # rest, s'')))"

fun dedup_sources :: "ingest_env \<Rightarrow> seen \<Rightarrow> rss_source list \<Rightarrow> article list" where
  "dedup_sources env s [] = []"
| "dedup_sources env s (source # rssSources) =
     (let (uniqueArticles, s') = filter_unique env s (ingestFromRSS env source)
      in uniqueArticles @ dedup_sources env s' rssSources)"

definition ingestWithDeduplication_collect :: "ingest_env \<Rightarrow> rss_source list \<Rightarrow> article list" where
  "ingestWithDeduplication_collect env rssSources =
     dedup_sources env \<lparr> seenUrls = {}, seenTitles = {} \<rparr> rssSources"


section \<open>RetrievalOrchestrator: the RAG service\<close>

text \<open>
  Similarity scores are JavaScript numbers; they are compared only inside the vector
  store, and are modelled as rationals, the literal \<open>0.7\<close> as \<open>7 / 10\<close>. An embedding is
  a list of numbers.
\<close>

type_synonym embedding = "rat list"

record payload =
  payload_title :: jsstring
  payload_content :: jsstring
  payload_url :: jsstring
  payload_publishedAt :: jsstring
  payload_source :: jsstring
  payload_createdAt :: jsstring

record hit =
  hit_id :: jsstring
  hit_score :: rat
  hit_payload :: payload

text \<open>
  A retrieved document: \<open>{id: result.id, score: result.score, ...result.payload}\<close>, for
  the payloads that \<open>storeBatchDocuments\<close> writes (they have no key \<open>id\<close> or \<open>score\<close>).
\<close>

record doc =
  doc_id :: jsstring
  doc_score :: rat
  doc_title :: jsstring
  doc_content :: jsstring
  doc_url :: jsstring
  doc_publishedAt :: jsstring
  doc_source :: jsstring
  doc_createdAt :: jsstring

definition to_doc :: "hit \<Rightarrow> doc" where
  "to_doc result =
     \<lparr> doc_id = hit_id result, doc_score = hit_score result,
       doc_title = payload_title (hit_payload result),
       doc_content = payload_content (hit_payload result),
       doc_url = payload_url (hit_payload result),
       doc_publishedAt = payload_publishedAt (hit_payload result),
       doc_source = payload_source (hit_payload result),
       doc_createdAt = payload_createdAt (hit_payload result) \<rparr>"

record source_ref =
  ref_title :: jsstring
  ref_url :: jsstring
  ref_source :: jsstring
  ref_publishedAt :: jsstring

definition source_of :: "doc \<Rightarrow> source_ref" where
  "source_of d =
     \<lparr> ref_title = doc_title d, ref_url = doc_url d, ref_source = doc_source d,
       ref_publishedAt = doc_publishedAt d \<rparr>"

text \<open>A message of the chat history, as \<open>addChatMessage\<close> stores it.\<close>

record turn =
  turn_id :: jsstring
  turn_timestamp :: jsstring
  turn_role :: jsstring
  turn_content :: jsstring
  turn_socketId :: "jsstring option"
  turn_sources :: "source_ref list option"
  turn_cached :: "bool option"

text \<open>A point of the collection, as \<open>storeBatchDocuments\<close> builds it.\<close>

record point =
  point_id :: jsstring
  point_vector :: embedding
  point_payload :: payload

text \<open>
  The calls that leave the process, in the order they are made. A call is recorded when
  the request is sent, whether or not it succeeds.
\<close>

datatype call =
    EmbedCall jsstring
  | SearchCall embedding nat rat
  | GenerateCall jsstring
  | UpsertCall "point list"

datatype error =
    JinaKeyMissing | EmbeddingFailed | GeminiKeyMissing | GenerationFailed | UpsertFailed

text \<open>
  The providers and library functions that the service consumes: the two API keys of the
  environment, the Jina embedding request (\<open>None\<close> when the request throws or its answer
  has no embedding), the Qdrant search (\<open>None\<close> when it throws), the Gemini request
  (\<open>None\<close> when the request throws or its answer has no candidate), the Qdrant upsert
  (false when it throws), the clock read for \<open>createdAt\<close>, the MD5 digest in hexadecimal
  and \<open>JSON.stringify\<close> on a list of messages.
\<close>

record rag_env =
  jinaApiKey :: "jsstring option"
  geminiApiKey :: "jsstring option"
  jina_embed :: "jsstring \<Rightarrow> embedding option"
  qdrant_search :: "embedding \<Rightarrow> nat \<Rightarrow> rat \<Rightarrow> hit list option"
  gemini_generate :: "jsstring \<Rightarrow> jsstring option"
  qdrant_upsert :: "point list \<Rightarrow> bool"
  created_at :: jsstring
  md5_hex :: "jsstring \<Rightarrow> jsstring"
  stringify :: "turn list \<Rightarrow> jsstring"

text \<open>
  \<open>initialize\<close> sets the flag \<open>isQdrantAvailable\<close>: true when the client was built and
  \<open>ensureCollection\<close> returned, false when either threw.
\<close>

definition initialize :: "bool \<Rightarrow> bool \<Rightarrow> bool" where
  "initialize client_built collection_ensured =
     (if client_built then (if collection_ensured then True else False) else False)"

text \<open>\<open>xs.slice(-n)\<close>: the last \<open>n\<close> elements, all of them when there are fewer.\<close>

definition slice_last :: "nat \<Rightarrow> 'a list \<Rightarrow> 'a list" where
  "slice_last n xs = drop (length xs - n) xs"

text \<open>\<open>xs.join(sep)\<close> on strings.\<close>

fun join :: "jsstring \<Rightarrow> jsstring list \<Rightarrow> jsstring" where
  "join sep [] = []"
| "join sep [x] = x"
| "join sep (x # y # ys) = x @ sep @ join sep (y # ys)"

definition score_threshold :: rat where
  "score_threshold = 7 / 10"

definition generateEmbedding ::
  "rag_env \<Rightarrow> jsstring \<Rightarrow> call list \<Rightarrow> (error + embedding) \<times> call list" where
  "generateEmbedding env text tr =
     (if \<not> truthy (jinaApiKey env) then (Inl JinaKeyMissing, tr)
      else (case jina_embed env text of
              None \<Rightarrow> (Inl EmbeddingFailed, tr @ [EmbedCall text])
            | Some e \<Rightarrow> (Inr e, tr @ [EmbedCall text])))"

text \<open>
  \<open>storeBatchDocuments\<close>: groups of 10 documents; a document whose embedding fails is
  skipped; a group with at least one point is upserted, and an upsert that throws ends
  the whole call with that error. The point of a document carries the document's id.
\<close>

definition make_point :: "rag_env \<Rightarrow> article \<Rightarrow> embedding \<Rightarrow> point" where
  "make_point env d e =
     \<lparr> point_id = article_id d, point_vector = e,
       point_payload =
         \<lparr> payload_title = article_title d, payload_content = article_content d,
           payload_url = article_url d, payload_publishedAt = article_publishedAt d,
           payload_source = article_source d, payload_createdAt = created_at env \<rparr> \<rparr>"

fun embed_batch :: "rag_env \<Rightarrow> article list \<Rightarrow> call list \<Rightarrow> point list \<times> call list" where
  "embed_batch env [] tr = ([], tr)"
| "embed_batch env (d # ds) tr =
     (case generateEmbedding env (article_content d) tr of
        (Inl e, tr1) \<Rightarrow> embed_batch env ds tr1
      | (Inr e, tr1) \<Rightarrow>
          (case embed_batch env ds tr1 of (points, tr2) \<Rightarrow> (make_point env d e # points, tr2)))"

function storeBatchDocuments ::
  "rag_env \<Rightarrow> article list \<Rightarrow> call list \<Rightarrow> (error + jsstring list) \<times> call list" where
  "storeBatchDocuments env documents tr =
     (if documents = [] then (Inr [], tr)
      else (case embed_batch env (take 10 documents) tr of
              (points, tr1) \<Rightarrow>
                if length points > 0
                then (if qdrant_upsert env points
                      then (case storeBatchDocuments env (drop 10 documents)
                                   (tr1 @ [UpsertCall points]) of
                              (Inl e, tr2) \<Rightarrow> (Inl e, tr2)
                            | (Inr ids, tr2) \<Rightarrow> (Inr (map point_id points @ ids), tr2))
                      else (Inl UpsertFailed, tr1 @ [UpsertCall points]))
                else storeBatchDocuments env (drop 10 documents) tr1))"
  by pat_completeness auto
termination
  by (relation "measure (\<lambda>(env, documents, tr). length documents)") auto

declare storeBatchDocuments.simps [simp del]

text \<open>
  \<open>searchSimilarDocuments\<close>: no call when the store is marked unavailable; any failure of
  the embedding or of the search is caught and gives the empty list.
\<close>

definition searchSimilarDocuments ::
  "rag_env \<Rightarrow> bool \<Rightarrow> jsstring \<Rightarrow> nat \<Rightarrow> call list \<Rightarrow> doc list \<times> call list" where
  "searchSimilarDocuments env isQdrantAvailable query limit tr =
     (if \<not> isQdrantAvailable then ([], tr)
      else (case generateEmbedding env query tr of
              (Inl e, tr1) \<Rightarrow> ([], tr1)
            | (Inr queryEmbedding, tr1) \<Rightarrow>
                (case qdrant_search env queryEmbedding limit score_threshold of
                   None \<Rightarrow> ([], tr1 @ [SearchCall queryEmbedding limit score_threshold])
                 | Some searchResult \<Rightarrow>
                     (map to_doc searchResult,
                      tr1 @ [SearchCall queryEmbedding limit score_threshold]))))"

text \<open>The two prompts of \<open>generateResponse\<close>.\<close>

definition context_block :: "doc \<Rightarrow> jsstring" where
  "context_block d =
     js ''Title: '' @ doc_title d @ js ''\<newline>Content: '' @ doc_content d
     @ js ''\<newline>Source: '' @ doc_source d @ js ''\<newline>Published: '' @ doc_publishedAt d
     @ js ''\<newline>---''"

definition contextText :: "doc list \<Rightarrow> jsstring" where
  "contextText context =
     (if length context > 0 then join (js ''\<newline>'') (map context_block context)
      else js ''No news articles available in the database.'')"

definition historyText :: "turn list \<Rightarrow> jsstring" where
  "historyText chatHistory =
     join (js ''\<newline>'')
       (map (\<lambda>msg. turn_role msg @ js '': '' @ turn_content msg) (slice_last 5 chatHistory))"

definition news_prompt :: "jsstring \<Rightarrow> doc list \<Rightarrow> turn list \<Rightarrow> jsstring" where
  "news_prompt query context chatHistory =
     js ''You are a helpful news assistant that provides accurate, informative responses based on the latest news articles. Use the provided context to answer the user's question.\<newline>\<newline>Context from recent news articles:\<newline>''
     @ contextText context
     @ js ''\<newline>\<newline>Previous conversation:\<newline>''
     @ historyText chatHistory
     @ js ''\<newline>\<newline>User question: ''
     @ query
     @ js ''\<newline>\<newline>Instructions:\<newline>1. Provide a comprehensive answer based on the news context provided\<newline>2. If the context doesn't contain relevant information, say so clearly\<newline>3. Always cite your sources when referencing specific information\<newline>4. Be objective and factual\<newline>5. If asked about recent events, focus on the most current information available\<newline>6. Keep responses conversational but informative\<newline>\<newline>Response:''"

definition empty_prompt :: "jsstring \<Rightarrow> turn list \<Rightarrow> jsstring" where
  "empty_prompt query chatHistory =
     js ''You are a helpful assistant. The news database is currently empty, so you cannot provide news-specific information. Please respond helpfully to the user's question while explaining that news data is not yet available.\<newline>\<newline>Previous conversation:\<newline>''
     @ historyText chatHistory
     @ js ''\<newline>\<newline>User question: ''
     @ query
     @ js ''\<newline>\<newline>Instructions:\<newline>1. Be helpful and conversational\<newline>2. Explain that the news database is currently empty\<newline>3. Suggest that an administrator needs to run news ingestion\<newline>4. Offer to help with general questions\<newline>5. Keep responses friendly and informative\<newline>\<newline>Response:''"

definition build_prompt :: "jsstring \<Rightarrow> doc list \<Rightarrow> turn list \<Rightarrow> jsstring" where
  "build_prompt query context chatHistory =
     (if length context > 0 then news_prompt query context chatHistory
      else empty_prompt query chatHistory)"

record generated =
  gen_response :: jsstring
  gen_sources :: "source_ref list"

definition generateResponse ::
  "rag_env \<Rightarrow> jsstring \<Rightarrow> doc list \<Rightarrow> turn list \<Rightarrow> call list
     \<Rightarrow> (error + generated) \<times> call list" where
  "generateResponse env query context chatHistory tr =
     (if \<not> truthy (geminiApiKey env) then (Inl GeminiKeyMissing, tr)
      else (let prompt = build_prompt query context chatHistory
            in case gemini_generate env prompt of
                 None \<Rightarrow> (Inl GenerationFailed, tr @ [GenerateCall prompt])
               | Some generatedText \<Rightarrow>
                   (Inr \<lparr> gen_response = generatedText, gen_sources = map source_of context \<rparr>,
                    tr @ [GenerateCall prompt])))"

record query_result =
  response :: jsstring
  sources :: "source_ref list"
  queryHash :: jsstring
  relevantDocsCount :: nat

definition advisory_text :: jsstring where
  "advisory_text = js ''I'm currently unable to access the news database. The RAG service is running in limited mode. Please ensure Qdrant is properly configured and try again later.''"

definition no_articles_text :: jsstring where
  "no_articles_text = js ''I don't have any news articles in my database yet. To get started, an administrator needs to run the news ingestion process. In the meantime, I can help answer general questions!''"

text \<open>
  The cache fingerprint, computed with the same expression by \<open>processQuery\<close> and by the
  message handler: \<open>md5(query + JSON.stringify(chatHistory.slice(-3)))\<close>.
\<close>

definition fingerprint ::
  "(jsstring \<Rightarrow> jsstring) \<Rightarrow> (turn list \<Rightarrow> jsstring) \<Rightarrow> jsstring \<Rightarrow> turn list
     \<Rightarrow> jsstring" where
  "fingerprint md5 json query chatHistory = md5 (query @ json (slice_last 3 chatHistory))"

text \<open>\<open>processQuery\<close>: every error of \<open>generateResponse\<close> is logged and thrown again.\<close>

definition processQuery ::
  "rag_env \<Rightarrow> bool \<Rightarrow> jsstring \<Rightarrow> turn list \<Rightarrow> call list
     \<Rightarrow> (error + query_result) \<times> call list" where
  "processQuery env isQdrantAvailable query chatHistory tr =
     (let qh = fingerprint (md5_hex env) (stringify env) query chatHistory
      in if \<not> isQdrantAvailable
         then (Inr \<lparr> response = advisory_text, sources = [], queryHash = qh,
                     relevantDocsCount = 0 \<rparr>, tr)
         else (case searchSimilarDocuments env isQdrantAvailable query 5 tr of
                 (relevantDocs, tr1) \<Rightarrow>
                   if length relevantDocs = 0
                   then (case generateResponse env query [] chatHistory tr1 of
                           (Inl e, tr2) \<Rightarrow> (Inl e, tr2)
                         | (Inr fallbackResponse, tr2) \<Rightarrow>
                             (Inr \<lparr> response =
                                      (if gen_response fallbackResponse \<noteq> []
                                       then gen_response fallbackResponse
                                       else no_articles_text),
                                    sources = [], queryHash = qh, relevantDocsCount = 0 \<rparr>,
                              tr2))
                   else (case generateResponse env query relevantDocs chatHistory tr1 of
                           (Inl e, tr2) \<Rightarrow> (Inl e, tr2)
                         | (Inr result, tr2) \<Rightarrow>
                             (Inr \<lparr> response = gen_response result,
                                    sources = gen_sources result, queryHash = qh,
                                    relevantDocsCount = length relevantDocs \<rparr>,
                              tr2))))"


section \<open>QueryCache and the socket message handler\<close>

text \<open>
  The query cache of \<open>RedisService\<close>: keys \<open>query_cache:<hash>\<close>, each entry with the time
  (in seconds) at which Redis drops it. The stored value is \<open>JSON.stringify(result)\<close> and
  the value read back is \<open>JSON.parse\<close> of it; on a result made of strings, a number and a
  list of records of strings this round trip gives back an equal value, so the entry
  holds the result itself.
\<close>

record cache_entry =
  entry_value :: query_result
  entry_expires :: nat

type_synonym redis = "jsstring \<Rightarrow> cache_entry option"

definition cache_key :: "jsstring \<Rightarrow> jsstring" where
  "cache_key h = js ''query_cache:'' @ h"

text \<open>
  \<open>cacheQueryResult\<close> (\<open>setEx\<close>) and \<open>getCachedQueryResult\<close> (\<open>get\<close>): \<open>ok\<close> says whether the
  Redis command succeeds; a failure is caught and gives \<open>false\<close>, respectively \<open>null\<close>.
\<close>

definition cacheQueryResult ::
  "bool \<Rightarrow> nat \<Rightarrow> redis \<Rightarrow> jsstring \<Rightarrow> query_result \<Rightarrow> nat \<Rightarrow> bool \<times> redis" where
  "cacheQueryResult ok now store h result ttl =
     (if ok
      then (True, store(cache_key h \<mapsto> \<lparr> entry_value = result, entry_expires = now + ttl \<rparr>))
      else (False, store))"

definition getCachedQueryResult ::
  "bool \<Rightarrow> nat \<Rightarrow> redis \<Rightarrow> jsstring \<Rightarrow> query_result option" where
  "getCachedQueryResult ok now store h =
     (if \<not> ok then None
      else (case store (cache_key h) of
              None \<Rightarrow> None
            | Some e \<Rightarrow> if now < entry_expires e then Some (entry_value e) else None))"

record world =
  cache :: redis
  trace :: "call list"

text \<open>
  The conditions of one request that the handler does not control: whether each Redis
  command succeeds, and the time in seconds at which the cache is read and at which it is
  written.
\<close>

record request_env =
  add_user_ok :: bool
  cache_get_ok :: bool
  cache_set_ok :: bool
  add_assistant_ok :: bool
  time_of_get :: nat
  time_of_set :: nat

record message_data =
  data_message :: "jsstring option"
  data_sessionId :: "jsstring option"

record assistant_message =
  msg_content :: jsstring
  msg_sources :: "source_ref list"
  msg_cached :: bool

datatype emitted = ErrorEvent jsstring | AssistantMessage assistant_message

definition apology_text :: jsstring where
  "apology_text = js ''I'm sorry, I'm having trouble processing your request right now. Please try again in a moment.''"

text \<open>
  The end of the handler: the assistant message is added to the history and emitted; when
  \<open>addChatMessage\<close> throws, the outer \<open>catch\<close> emits an error event instead.
\<close>

definition deliver ::
  "request_env \<Rightarrow> jsstring \<Rightarrow> source_ref list \<Rightarrow> bool \<Rightarrow> emitted" where
  "deliver req text srcs cached =
     (if add_assistant_ok req
      then AssistantMessage \<lparr> msg_content = text, msg_sources = srcs, msg_cached = cached \<rparr>
      else ErrorEvent (js ''Failed to process message''))"

text \<open>
  The handler of the \<open>message\<close> event. \<open>chatHistory\<close> is what \<open>getChatHistory(sessionId, 10)\<close>
  returned, read before the user message is added. The typing indicators and the echo of
  the user message are not modelled. The HTTP route of \<open>routes/test.js\<close> uses the cache in
  the same way, without the inner \<open>catch\<close> around \<open>processQuery\<close>.
\<close>

definition on_message ::
  "rag_env \<Rightarrow> bool \<Rightarrow> request_env \<Rightarrow> jsstring option \<Rightarrow> message_data \<Rightarrow> turn list
     \<Rightarrow> world \<Rightarrow> emitted \<times> world" where
  "on_message env isQdrantAvailable req socket_sessionId data chatHistory w =
     (case (data_message data, data_sessionId data) of
        (Some message, Some sessionId) \<Rightarrow>
          if message = [] \<or> sessionId = []
          then (ErrorEvent (js ''Message and session ID are required''), w)
          else if \<not> truthy socket_sessionId \<or> socket_sessionId \<noteq> Some sessionId
          then (ErrorEvent (js ''Not joined to this session''), w)
          else if \<not> add_user_ok req
          then (ErrorEvent (js ''Failed to process message''), w)
          else
            (let qh = fingerprint (md5_hex env) (stringify env) message chatHistory
             in case getCachedQueryResult (cache_get_ok req) (time_of_get req) (cache w) qh of
                  Some cachedResult \<Rightarrow>
                    (deliver req (response cachedResult) (sources cachedResult) True, w)
                | None \<Rightarrow>
                    (case processQuery env isQdrantAvailable message chatHistory (trace w) of
                       (Inr result, tr) \<Rightarrow>
                         (deliver req (response result) (sources result) False,
                          \<lparr> cache = snd (cacheQueryResult (cache_set_ok req) (time_of_set req)
                                           (cache w) qh result (30 * 60)),
                            trace = tr \<rparr>)
                     | (Inl ragError, tr) \<Rightarrow>
                         (deliver req apology_text [] False, \<lparr> cache = cache w, trace = tr \<rparr>)))
      | _ \<Rightarrow> (ErrorEvent (js ''Message and session ID are required''), w))"

text \<open>
  A request that passes the checks at the head of the handler: a non-empty message and
  session id, a socket joined to that session, and a user message that could be stored.
\<close>

definition passes_checks ::
  "request_env \<Rightarrow> jsstring option \<Rightarrow> message_data \<Rightarrow> jsstring \<Rightarrow> bool" where
  "passes_checks req socket_sessionId data message \<longleftrightarrow>
     data_message data = Some message \<and> message \<noteq> [] \<and>
     (case data_sessionId data of
        None \<Rightarrow> False
      | Some sessionId \<Rightarrow> sessionId \<noteq> [] \<and> socket_sessionId = Some sessionId) \<and>
     add_user_ok req"

text \<open>The number of requests sent to the generation provider.\<close>

fun is_generate :: "call \<Rightarrow> bool" where
  "is_generate (GenerateCall p) = True"
| "is_generate _ = False"

definition generate_calls :: "call list \<Rightarrow> nat" where
  "generate_calls tr = length (filter is_generate tr)"


section \<open>Ingestion runs\<close>

text \<open>
  The two entry points of a run hand the collected articles to \<open>storeBatchDocuments\<close> and
  report how many were collected and stored; an error of the storage is thrown again.
  The remaining fields of the report (source names, categories, regions) are left out.
\<close>

record ingest_report =
  totalCollected :: nat
  totalStored :: nat

definition store_collected ::
  "rag_env \<Rightarrow> article list \<Rightarrow> call list \<Rightarrow> (error + ingest_report) \<times> call list" where
  "store_collected renv allArticles tr =
     (if length allArticles > 0
      then (case storeBatchDocuments renv allArticles tr of
              (Inl e, tr1) \<Rightarrow> (Inl e, tr1)
            | (Inr storedIds, tr1) \<Rightarrow>
                (Inr \<lparr> totalCollected = length allArticles,
                       totalStored = length storedIds \<rparr>, tr1))
      else (Inr \<lparr> totalCollected = 0, totalStored = 0 \<rparr>, tr))"

text \<open>The points sent to the vector store by the upserts of a list of calls, in order.\<close>

fun upserted :: "call list \<Rightarrow> point list" where
  "upserted [] = []"
| "upserted (UpsertCall points # calls) = points @ upserted calls"
| "upserted (c # calls) = upserted calls"

text \<open>
  The two deduplication keys of a stored point, read from its payload as \<open>urlKey\<close> and
  \<open>titleKey\<close> read them from the article.
\<close>

definition point_urlKey :: "point \<Rightarrow> jsstring" where
  "point_urlKey p = payload_url (point_payload p)"

definition point_titleKey :: "ingest_env \<Rightarrow> point \<Rightarrow> jsstring" where
  "point_titleKey env p =
     filter (\<lambda>c. is_word c \<or> is_space c) (toLowerCase env (payload_title (point_payload p)))"

definition ingestAllSources ::
  "ingest_env \<Rightarrow> rag_env \<Rightarrow> rss_source list \<Rightarrow> call list
     \<Rightarrow> (error + ingest_report) \<times> call list" where
  "ingestAllSources env renv rssSources tr =
     store_collected renv (ingestAllSources_collect env rssSources) tr"

definition ingestWithDeduplication ::
  "ingest_env \<Rightarrow> rag_env \<Rightarrow> rss_source list \<Rightarrow> call list
     \<Rightarrow> (error + ingest_report) \<times> call list" where
  "ingestWithDeduplication env renv rssSources tr =
     store_collected renv (ingestWithDeduplication_collect env rssSources) tr"


section \<open>Concrete inputs\<close>

text \<open>
  A feed item with a link, a title with a special character and 200 characters of content
  (so that no page is fetched), the same item with 6001 characters, two sources that
  deliver it, and stand-ins for what comes from outside: a digest that prefixes its
  input, a feed parser that gives the item for every source, no page, and the identity
  for \<open>toLowerCase\<close>.
\<close>

definition ex_item :: rss_item where
  "ex_item =
     \<lparr> item_link = Some (js ''https://example.com/a''), item_guid = None,
       item_title = Some (js ''Tom & Jerry''),
       item_contentSnippet = Some (replicate 200 0x61), item_content = None,
       item_description = None, item_pubDate = Some (js ''Mon, 01 Jan 2024''),
       item_isoDate = None \<rparr>"

definition ex_long_item :: rss_item where
  "ex_long_item = ex_item \<lparr> item_contentSnippet := Some (replicate 6001 0x61) \<rparr>"

definition ex_source_a :: rss_source where
  "ex_source_a =
     \<lparr> src_name = js ''A'', src_url = js ''https://a.example/rss'', src_category = js ''world'',
       src_region = Some (js ''UK'') \<rparr>"

definition ex_source_b :: rss_source where
  "ex_source_b =
     \<lparr> src_name = js ''B'', src_url = js ''https://b.example/rss'', src_category = js ''world'',
       src_region = None \<rparr>"

definition ex_ingest_env :: ingest_env where
  "ex_ingest_env =
     \<lparr> md5hex = (\<lambda>s. js ''md5:'' @ s), parseURL = (\<lambda>url. Some [ex_item]),
       page_text = (\<lambda>url. None), now_iso = js ''2024-01-01T00:00:00.000Z'',
       toLowerCase = (\<lambda>s. s) \<rparr>"

definition ex_article :: "rss_source \<Rightarrow> article" where
  "ex_article source =
     \<lparr> article_id = js ''md5:https://example.com/a'', article_title = js ''Tom  Jerry'',
       article_content = replicate 200 0x61, article_url = js ''https://example.com/a'',
       article_publishedAt = js ''Mon, 01 Jan 2024'', article_source = src_name source,
       article_category = src_category source,
       article_region = or_else (src_region source) (js ''Unknown'') \<rparr>"

text \<open>
  A vector store holding three points, whose search keeps the points at or above the
  threshold and cuts the list at the limit; an embedding provider and a generation
  provider that answer every request; a generation provider that fails; a store whose
  search finds nothing.
\<close>

definition ex_hit :: "string \<Rightarrow> rat \<Rightarrow> hit" where
  "ex_hit name sc =
     \<lparr> hit_id = js name, hit_score = sc,
       hit_payload =
         \<lparr> payload_title = js name, payload_content = js ''text'', payload_url = js ''url'',
           payload_publishedAt = js ''2024'', payload_source = js ''A'',
           payload_createdAt = js ''2024'' \<rparr> \<rparr>"

definition ex_points :: "hit list" where
  "ex_points = [ex_hit ''p1'' (9 / 10), ex_hit ''p2'' (8 / 10), ex_hit ''p3'' (1 / 2)]"

definition ex_search :: "embedding \<Rightarrow> nat \<Rightarrow> rat \<Rightarrow> hit list option" where
  "ex_search v limit threshold =
     Some (take limit (filter (\<lambda>h. threshold \<le> hit_score h) ex_points))"

definition ex_answer :: jsstring where
  "ex_answer = js ''The top story today is a new phone launch.''"

definition ex_rag_env :: rag_env where
  "ex_rag_env =
     \<lparr> jinaApiKey = Some (js ''jina''), geminiApiKey = Some (js ''gemini''),
       jina_embed = (\<lambda>text. Some [1, 0]), qdrant_search = ex_search,
       gemini_generate = (\<lambda>prompt. Some ex_answer), qdrant_upsert = (\<lambda>points. True),
       created_at = js ''2024'', md5_hex = (\<lambda>s. js ''md5:'' @ s),
       stringify = (\<lambda>turns. js ''['' @ join (js '','') (map turn_content turns) @ js '']'') \<rparr>"

definition ex_rag_env_down :: rag_env where
  "ex_rag_env_down = ex_rag_env \<lparr> gemini_generate := (\<lambda>prompt. None) \<rparr>"

definition ex_rag_env_empty :: rag_env where
  "ex_rag_env_empty = ex_rag_env \<lparr> qdrant_search := (\<lambda>v limit threshold. Some []) \<rparr>"

definition ex_message :: jsstring where
  "ex_message = js ''latest tech news''"

definition ex_hash :: jsstring where
  "ex_hash = js ''md5:latest tech news[]''"

definition ex_docs :: "doc list" where
  "ex_docs = [to_doc (ex_hit ''p1'' (9 / 10)), to_doc (ex_hit ''p2'' (8 / 10))]"

definition ex_result :: query_result where
  "ex_result =
     \<lparr> response = ex_answer, sources = map source_of ex_docs, queryHash = ex_hash,
       relevantDocsCount = 2 \<rparr>"

definition ex_search_trace :: "call list" where
  "ex_search_trace = [EmbedCall ex_message, SearchCall [1, 0] 5 (7 / 10)]"

text \<open>
  Two requests of a socket joined to session \<open>s1\<close>, the second 100 seconds after the
  first, with Redis answering every command; and a world with an empty cache and no call
  made yet.
\<close>

definition ex_data :: message_data where
  "ex_data = \<lparr> data_message = Some ex_message, data_sessionId = Some (js ''s1'') \<rparr>"

definition ex_request :: request_env where
  "ex_request =
     \<lparr> add_user_ok = True, cache_get_ok = True, cache_set_ok = True, add_assistant_ok = True,
       time_of_get = 0, time_of_set = 1 \<rparr>"

definition ex_request_later :: request_env where
  "ex_request_later = ex_request \<lparr> time_of_get := 100, time_of_set := 101 \<rparr>"

definition ex_world :: world where
  "ex_world = \<lparr> cache = (\<lambda>key. None), trace = [] \<rparr>"


section \<open>Properties of \<open>cleanText\<close>\<close>

text \<open>
  What holds of every output of \<open>cleanText\<close>: each character is a word character, a
  whitespace character or one of the listed punctuation marks, so no angle bracket is
  left; the only whitespace character left is the space; and the output neither starts
  nor ends with whitespace.
\<close>

lemma set_trim: "set (trim s) \<subseteq> set s"
proof -
  have "set (dropWhile is_space (rev (dropWhile is_space s))) \<subseteq> set (rev (dropWhile is_space s))"
    by (auto dest: set_dropWhileD)
  also have "\<dots> \<subseteq> set s"
    by (auto dest: set_dropWhileD)
  finally show ?thesis by (simp add: trim_def)
qed

lemma cleanText_kept: "c \<in> set (cleanText t) \<Longrightarrow> kept_char c"
proof -
  assume c: "c \<in> set (cleanText t)"
  then have "t \<noteq> []" by (auto simp: cleanText_def)
  with c have "c \<in> set (trim (remove_special (collapse_ws (strip_tags t))))"
    by (simp add: cleanText_def)
  with set_trim have "c \<in> set (remove_special (collapse_ws (strip_tags t)))" by blast
  then show ?thesis by (simp add: remove_special_def)
qed

lemma not_kept_angle: "\<not> kept_char 0x3C" "\<not> kept_char 0x3E"
  by (simp_all add: kept_char_def is_word_def is_space_def is_basic_punct_def)

lemma cleanText_no_markup: "0x3C \<notin> set (cleanText t) \<and> 0x3E \<notin> set (cleanText t)"
  using cleanText_kept not_kept_angle by blast

lemma last_dropWhile_nonempty: "dropWhile P ys \<noteq> [] \<Longrightarrow> last (dropWhile P ys) = last ys"
  by (induction ys) auto

lemma trim_ends:
  assumes "trim s \<noteq> []"
  shows "\<not> is_space (hd (trim s))" and "\<not> is_space (last (trim s))"
proof -
  let ?d = "dropWhile is_space s"
  let ?e = "dropWhile is_space (rev ?d)"
  have t: "trim s = rev ?e" by (simp add: trim_def)
  with assms have e: "?e \<noteq> []" by simp
  have d: "?d \<noteq> []"
  proof
    assume "?d = []"
    then have "?e = []" by (simp only: rev.simps dropWhile.simps)
    with e show False by simp
  qed
  have "hd (trim s) = last ?e" using e t by (simp add: hd_rev)
  also have "\<dots> = last (rev ?d)" using e by (rule last_dropWhile_nonempty)
  also have "\<dots> = hd ?d" using d by (simp add: last_rev)
  finally have "hd (trim s) = hd ?d" .
  moreover have "\<not> is_space (hd ?d)" using d by (rule hd_dropWhile)
  ultimately show "\<not> is_space (hd (trim s))" by simp
  have "last (trim s) = hd ?e" using e t by (simp add: last_rev)
  moreover have "\<not> is_space (hd ?e)" using e by (rule hd_dropWhile)
  ultimately show "\<not> is_space (last (trim s))" by simp
qed

lemma collapse_ws_space: "c \<in> set (collapse_ws s) \<Longrightarrow> is_space c \<Longrightarrow> c = 0x20"
proof (induction s rule: collapse_ws.induct)
  case 1
  then show ?case by simp
next
  case (2 x xs)
  then show ?case by (auto split: if_splits)
qed

lemma cleanText_space: "c \<in> set (cleanText t) \<Longrightarrow> is_space c \<Longrightarrow> c = 0x20"
proof -
  assume c: "c \<in> set (cleanText t)" and sp: "is_space c"
  from c have "c \<in> set (trim (remove_special (collapse_ws (strip_tags t))))"
    by (auto simp: cleanText_def split: if_splits)
  with set_trim have "c \<in> set (remove_special (collapse_ws (strip_tags t)))" by blast
  then have "c \<in> set (collapse_ws (strip_tags t))" by (simp add: remove_special_def)
  from this sp show ?thesis by (rule collapse_ws_space)
qed

lemma cleanText_trimmed:
  "cleanText t \<noteq> [] \<Longrightarrow> \<not> is_space (hd (cleanText t)) \<and> \<not> is_space (last (cleanText t))"
proof -
  assume ne: "cleanText t \<noteq> []"
  let ?u = "remove_special (collapse_ws (strip_tags t))"
  from ne have "t \<noteq> []" by (auto simp: cleanText_def)
  then have eq: "cleanText t = trim ?u" by (simp add: cleanText_def)
  with ne have "trim ?u \<noteq> []" by simp
  then have "\<not> is_space (hd (trim ?u))" and "\<not> is_space (last (trim ?u))"
    by (rule trim_ends)+
  then show ?thesis by (simp only: eq simp_thms)
qed

text \<open>
  A string of word characters is left as it is.
\<close>

lemma strip_tags_plain: "0x3C \<notin> set s \<Longrightarrow> strip_tags s = s"
  by (induction s) auto

lemma collapse_ws_plain: "\<forall>c\<in>set s. \<not> is_space c \<Longrightarrow> collapse_ws s = s"
  by (induction s) auto

lemma trim_plain: "\<forall>c\<in>set s. \<not> is_space c \<Longrightarrow> trim s = s"
proof -
  assume a: "\<forall>c\<in>set s. \<not> is_space c"
  have "dropWhile is_space s = s" using a by (cases s) auto
  moreover have "dropWhile is_space (rev s) = rev s" using a by (cases "rev s") (auto simp: in_set_conv_decomp)
  ultimately show ?thesis by (simp add: trim_def)
qed

lemma is_word_not_lt: "is_word c \<Longrightarrow> c \<noteq> 0x3C"
  unfolding is_word_def by auto

lemma is_word_not_space: "is_word c \<Longrightarrow> \<not> is_space c"
  unfolding is_word_def is_space_def by (auto simp: word_le_nat_alt)

lemma cleanText_words: "\<forall>c\<in>set s. is_word c \<Longrightarrow> cleanText s = s"
proof -
  assume a: "\<forall>c\<in>set s. is_word c"
  have 1: "strip_tags s = s" using a is_word_not_lt by (intro strip_tags_plain) blast
  have 2: "collapse_ws s = s" using a is_word_not_space by (intro collapse_ws_plain) blast
  have 3: "remove_special s = s" using a by (simp add: remove_special_def kept_char_def)
  have 4: "trim s = s" using a is_word_not_space by (intro trim_plain) blast
  show ?thesis by (simp add: cleanText_def 1 2 3 4)
qed

lemma js_eq_Nil: "js s = [] \<longleftrightarrow> s = []"
  by (simp add: js_def)

section \<open>Properties of ingestion\<close>

lemma processRSSItem_id:
  assumes "processRSSItem env item source = Some a"
  shows "\<exists>key. id_key item = Some key \<and> article_id a = md5hex env key"
  using assms by (auto simp: processRSSItem_def Let_def split: option.splits if_splits)

lemma id_key_first:
  "id_key item =
     (if truthy (item_link item) then item_link item
      else if truthy (item_guid item) then item_guid item
      else item_title item)"
  by (simp add: id_key_def js_or_def)

text \<open>
  The filter of \<open>ingestWithDeduplication\<close> accepts an article only when neither of its
  keys has been seen, and the sets are carried from one source to the next, so the run
  is one pass of the filter over everything that the sources gave.
\<close>

lemma filter_unique_fresh:
  "filter_unique env s as = (r, s') \<Longrightarrow> a \<in> set r \<Longrightarrow>
     urlKey a \<notin> seenUrls s \<and> titleKey env a \<notin> seenTitles s"
proof (induction as arbitrary: s r s')
  case Nil
  then show ?case by simp
next
  case (Cons x xs)
  show ?case
  proof (cases "urlKey x \<in> seenUrls s \<or> titleKey env x \<in> seenTitles s")
    case True
    with Cons.prems have "filter_unique env s xs = (r, s')" by simp
    with Cons.IH Cons.prems(2) show ?thesis by blast
  next
    case False
    define s1 where "s1 = \<lparr> seenUrls = insert (urlKey x) (seenUrls s),
                              seenTitles = insert (titleKey env x) (seenTitles s) \<rparr>"
    obtain rest s2 where rec: "filter_unique env s1 xs = (rest, s2)"
      by (cases "filter_unique env s1 xs")
    with False Cons.prems(1) have r: "r = x # rest"
      by (simp add: s1_def Let_def)
    show ?thesis
    proof (cases "a = x")
      case True
      with False show ?thesis by simp
    next
      case neq: False
      with r Cons.prems(2) have "a \<in> set rest" by simp
      with Cons.IH [OF rec] have "urlKey a \<notin> seenUrls s1 \<and> titleKey env a \<notin> seenTitles s1"
        by blast
      then show ?thesis by (simp add: s1_def)
    qed
  qed
qed

lemma filter_unique_distinct:
  "filter_unique env s as = (r, s') \<Longrightarrow>
     distinct (map urlKey r) \<and> distinct (map (titleKey env) r)"
proof (induction as arbitrary: s r s')
  case Nil
  then show ?case by simp
next
  case (Cons x xs)
  show ?case
  proof (cases "urlKey x \<in> seenUrls s \<or> titleKey env x \<in> seenTitles s")
    case True
    with Cons.prems have "filter_unique env s xs = (r, s')" by simp
    with Cons.IH show ?thesis by blast
  next
    case False
    define s1 where "s1 = \<lparr> seenUrls = insert (urlKey x) (seenUrls s),
                              seenTitles = insert (titleKey env x) (seenTitles s) \<rparr>"
    obtain rest s2 where rec: "filter_unique env s1 xs = (rest, s2)"
      by (cases "filter_unique env s1 xs")
    with False Cons.prems(1) have r: "r = x # rest"
      by (simp add: s1_def Let_def)
    have "\<forall>a\<in>set rest. urlKey a \<noteq> urlKey x \<and> titleKey env a \<noteq> titleKey env x"
    proof
      fix a assume "a \<in> set rest"
      with filter_unique_fresh [OF rec]
      have "urlKey a \<notin> seenUrls s1 \<and> titleKey env a \<notin> seenTitles s1" by blast
      then show "urlKey a \<noteq> urlKey x \<and> titleKey env a \<noteq> titleKey env x"
        by (auto simp: s1_def)
    qed
    moreover from Cons.IH [OF rec]
    have "distinct (map urlKey rest) \<and> distinct (map (titleKey env) rest)" .
    ultimately show ?thesis using r by auto
  qed
qed

lemma filter_unique_append:
  "filter_unique env s (xs @ ys) =
     (case filter_unique env s xs of
        (r1, s1) \<Rightarrow> (case filter_unique env s1 ys of (r2, s2) \<Rightarrow> (r1 @ r2, s2)))"
  by (induction xs arbitrary: s) (simp_all add: Let_def split: prod.splits)

lemma dedup_sources_concat:
  "dedup_sources env s srcs =
     fst (filter_unique env s (concat (map (ingestFromRSS env) srcs)))"
  by (induction srcs arbitrary: s)
     (simp_all add: filter_unique_append Let_def split: prod.splits)

lemma dedup_is_filter:
  "ingestWithDeduplication_collect env srcs =
     fst (filter_unique env \<lparr> seenUrls = {}, seenTitles = {} \<rparr>
            (ingestAllSources_collect env srcs))"
  by (simp add: ingestWithDeduplication_collect_def ingestAllSources_collect_def
        dedup_sources_concat)

text \<open>
  What \<open>storeBatchDocuments\<close> sends to the vector store: the points of a call are built
  from documents of its list, batch after batch, so a key that is distinct over the
  documents is distinct over the points.
\<close>

lemma upserted_append: "upserted (xs @ ys) = upserted xs @ upserted ys"
  by (induction xs rule: upserted.induct) simp_all

lemma generateEmbedding_upserted:
  "generateEmbedding env text tr = (res, tr') \<Longrightarrow> upserted tr' = upserted tr"
  by (auto simp: generateEmbedding_def upserted_append split: if_splits option.splits)

lemma embed_batch_keys:
  assumes key: "\<And>d e. g (make_point env d e) = f d"
  shows "embed_batch env ds tr = (ps, tr') \<Longrightarrow>
     upserted tr' = upserted tr \<and> set (map g ps) \<subseteq> set (map f ds) \<and>
     (distinct (map f ds) \<longrightarrow> distinct (map g ps))"
proof (induction ds arbitrary: tr ps tr')
  case Nil
  then show ?case by simp
next
  case (Cons d ds)
  obtain res tr1 where e: "generateEmbedding env (article_content d) tr = (res, tr1)"
    by (cases "generateEmbedding env (article_content d) tr")
  then have u1: "upserted tr1 = upserted tr" by (rule generateEmbedding_upserted)
  obtain ps2 tr2 where r: "embed_batch env ds tr1 = (ps2, tr2)"
    by (cases "embed_batch env ds tr1")
  from Cons.IH [OF r] have ih: "upserted tr2 = upserted tr1"
    "set (map g ps2) \<subseteq> set (map f ds)" "distinct (map f ds) \<longrightarrow> distinct (map g ps2)"
    by simp_all
  show ?case
  proof (cases res)
    case (Inl err)
    with Cons.prems e r have "ps = ps2" "tr' = tr2" by simp_all
    with ih u1 show ?thesis by auto
  next
    case (Inr v)
    with Cons.prems e r have "ps = make_point env d v # ps2" "tr' = tr2" by simp_all
    with ih u1 key show ?thesis by auto
  qed
qed

lemma distinct_map_take_drop:
  assumes "distinct (map f xs)"
  shows "distinct (map f (take n xs))" and "distinct (map f (drop n xs))"
    and "set (map f (take n xs)) \<inter> set (map f (drop n xs)) = {}"
proof -
  have "distinct (map f (take n xs) @ map f (drop n xs))"
    using assms by (simp add: map_append [symmetric] del: map_append)
  then show "distinct (map f (take n xs))" and "distinct (map f (drop n xs))"
    and "set (map f (take n xs)) \<inter> set (map f (drop n xs)) = {}"
    by simp_all
qed

lemma set_map_take_drop:
  "set (map f (take n xs)) \<subseteq> set (map f xs)" "set (map f (drop n xs)) \<subseteq> set (map f xs)"
  by (auto dest: in_set_takeD in_set_dropD)

lemma storeBatchDocuments_keys:
  "(\<And>d e. g (make_point env d e) = f d) \<Longrightarrow>
   storeBatchDocuments env docs tr = (res, tr') \<Longrightarrow>
     \<exists>new. upserted tr' = upserted tr @ new \<and> set (map g new) \<subseteq> set (map f docs) \<and>
           (distinct (map f docs) \<longrightarrow> distinct (map g new))"
proof (induction env docs tr arbitrary: res tr' rule: storeBatchDocuments.induct)
  case (1 env docs tr)
  note key = "1.prems"(1)
  note run = "1.prems"(2)
  show ?case
  proof (cases "docs = []")
    case True
    with run have "tr' = tr" by (simp add: storeBatchDocuments.simps [of env "[]"])
    then show ?thesis by simp
  next
    case ne: False
    obtain ps tr1 where b: "embed_batch env (take 10 docs) tr = (ps, tr1)"
      by (cases "embed_batch env (take 10 docs) tr")
    from embed_batch_keys [where g = g and f = f, OF key b]
    have eb: "upserted tr1 = upserted tr"
      "set (map g ps) \<subseteq> set (map f (take 10 docs))"
      "distinct (map f (take 10 docs)) \<longrightarrow> distinct (map g ps)"
      by simp_all
    have sub_take: "set (map g ps) \<subseteq> set (map f docs)"
      using eb(2) set_map_take_drop(1) [of f 10 docs] by blast
    show ?thesis
    proof (cases "0 < length ps")
      case False
      obtain res2 tr2 where r: "storeBatchDocuments env (drop 10 docs) tr1 = (res2, tr2)"
        by (cases "storeBatchDocuments env (drop 10 docs) tr1")
      from run ne b False r have t: "tr' = tr2"
        by (simp add: storeBatchDocuments.simps [of env docs])
      from "1.IH"(2) [OF ne b [symmetric] False key r]
      obtain new where n: "upserted tr2 = upserted tr1 @ new"
        "set (map g new) \<subseteq> set (map f (drop 10 docs))"
        "distinct (map f (drop 10 docs)) \<longrightarrow> distinct (map g new)"
        by blast
      have "set (map g new) \<subseteq> set (map f docs)"
        using n(2) set_map_take_drop(2) [of f 10 docs] by blast
      moreover have "distinct (map f docs) \<longrightarrow> distinct (map g new)"
        using n(3) distinct_map_take_drop(2) [of f docs 10] by blast
      ultimately show ?thesis using n(1) eb(1) t by auto
    next
      case pos: True
      show ?thesis
      proof (cases "qdrant_upsert env ps")
        case False
        from run ne b pos False have t: "tr' = tr1 @ [UpsertCall ps]"
          by (simp add: storeBatchDocuments.simps [of env docs])
        have "upserted tr' = upserted tr @ ps"
          by (simp add: t upserted_append eb(1))
        moreover have "distinct (map f docs) \<longrightarrow> distinct (map g ps)"
          using eb(3) distinct_map_take_drop(1) [of f docs 10] by blast
        ultimately show ?thesis using sub_take by blast
      next
        case True
        obtain res2 tr2 where r:
          "storeBatchDocuments env (drop 10 docs) (tr1 @ [UpsertCall ps]) = (res2, tr2)"
          by (cases "storeBatchDocuments env (drop 10 docs) (tr1 @ [UpsertCall ps])")
        from run ne b pos True r have t: "tr' = tr2"
          by (cases res2) (simp_all add: storeBatchDocuments.simps [of env docs])
        from "1.IH"(1) [OF ne b [symmetric] pos True key r]
        obtain new where n: "upserted tr2 = upserted (tr1 @ [UpsertCall ps]) @ new"
          "set (map g new) \<subseteq> set (map f (drop 10 docs))"
          "distinct (map f (drop 10 docs)) \<longrightarrow> distinct (map g new)"
          by blast
        have u: "upserted tr' = upserted tr @ (ps @ new)"
          by (simp add: t n(1) upserted_append eb(1))
        have s: "set (map g (ps @ new)) \<subseteq> set (map f docs)"
          using sub_take n(2) set_map_take_drop(2) [of f 10 docs] by auto
        have d: "distinct (map f docs) \<longrightarrow> distinct (map g (ps @ new))"
        proof
          assume dd: "distinct (map f docs)"
          from distinct_map_take_drop [OF dd, of 10] eb(3) n(3)
          have "distinct (map g ps)" "distinct (map g new)"
            "set (map f (take 10 docs)) \<inter> set (map f (drop 10 docs)) = {}"
            by blast+
          with eb(2) n(2) have "set (map g ps) \<inter> set (map g new) = {}" by blast
          with \<open>distinct (map g ps)\<close> \<open>distinct (map g new)\<close>
          show "distinct (map g (ps @ new))" by simp
        qed
        from u s d show ?thesis by blast
      qed
    qed
  qed
qed

lemma store_collected_keys:
  assumes key: "\<And>d e. g (make_point renv d e) = f d"
  shows "\<exists>new. upserted (snd (store_collected renv docs tr)) = upserted tr @ new \<and>
               (distinct (map f docs) \<longrightarrow> distinct (map g new))"
proof -
  obtain res tr' where r: "storeBatchDocuments renv docs tr = (res, tr')"
    by (cases "storeBatchDocuments renv docs tr")
  from storeBatchDocuments_keys [where g = g and f = f, OF key r]
  obtain new where n: "upserted tr' = upserted tr @ new"
    "distinct (map f docs) \<longrightarrow> distinct (map g new)"
    by blast
  show ?thesis
  proof (cases "0 < length docs")
    case True
    with r have "snd (store_collected renv docs tr) = tr'"
      by (cases res) (simp_all add: store_collected_def)
    with n show ?thesis by auto
  next
    case False
    then have "snd (store_collected renv docs tr) = tr"
      by (simp add: store_collected_def)
    then show ?thesis by simp
  qed
qed


section \<open>Properties of the query pipeline\<close>

text \<open>
  Calls to the generation provider: the embedding and the search add none, and one query
  adds at most one.
\<close>

lemma generate_calls_append [simp]:
  "generate_calls (xs @ ys) = generate_calls xs + generate_calls ys"
  by (simp add: generate_calls_def)

lemma generateEmbedding_calls:
  "generateEmbedding env text tr = (res, tr') \<Longrightarrow> generate_calls tr' = generate_calls tr"
  by (auto simp: generateEmbedding_def generate_calls_def split: if_splits option.splits)

lemma searchSimilarDocuments_calls:
  "searchSimilarDocuments env avail query limit tr = (docs, tr') \<Longrightarrow>
     generate_calls tr' = generate_calls tr"
proof -
  assume a: "searchSimilarDocuments env avail query limit tr = (docs, tr')"
  obtain res tr1 where g: "generateEmbedding env query tr = (res, tr1)"
    by (cases "generateEmbedding env query tr")
  then have g1: "generate_calls tr1 = generate_calls tr" by (rule generateEmbedding_calls)
  have s: "generate_calls [SearchCall v n t] = 0" for v n t
    by (simp add: generate_calls_def)
  from a g have "tr' = tr \<or> tr' = tr1 \<or> (\<exists>v n t. tr' = tr1 @ [SearchCall v n t])"
    by (cases avail; cases res)
       (auto simp: searchSimilarDocuments_def split: option.splits)
  with g1 s show ?thesis by auto
qed

lemma generateResponse_calls:
  "generateResponse env query ctx h tr = (res, tr') \<Longrightarrow>
     generate_calls tr' \<le> generate_calls tr + 1"
  by (auto simp: generateResponse_def Let_def generate_calls_def split: if_splits option.splits)

lemma processQuery_calls:
  assumes "processQuery env avail query h tr = (res, tr')"
  shows "generate_calls tr' \<le> generate_calls tr + 1"
proof (cases avail)
  case False
  with assms show ?thesis by (simp add: processQuery_def Let_def)
next
  case True
  obtain docs tr1 where s: "searchSimilarDocuments env avail query 5 tr = (docs, tr1)"
    by (cases "searchSimilarDocuments env avail query 5 tr")
  then have s1: "generate_calls tr1 = generate_calls tr" by (rule searchSimilarDocuments_calls)
  obtain g tr2 where g: "generateResponse env query (if length docs = 0 then [] else docs) h tr1 = (g, tr2)"
    by (cases "generateResponse env query (if length docs = 0 then [] else docs) h tr1")
  then have g1: "generate_calls tr2 \<le> generate_calls tr1 + 1" by (rule generateResponse_calls)
  from assms True s g have "tr' = tr2"
    by (cases g) (auto simp: processQuery_def Let_def split: if_splits)
  with g1 s1 show ?thesis by simp
qed

text \<open>
  The only errors that \<open>processQuery\<close> throws are those of \<open>generateResponse\<close>.
\<close>

lemma processQuery_errors:
  assumes "processQuery env avail query h tr = (Inl e, tr')"
  shows "e = GeminiKeyMissing \<or> e = GenerationFailed"
proof -
  have g: "generateResponse env query ctx h t = (Inl e', t') \<Longrightarrow>
             e' = GeminiKeyMissing \<or> e' = GenerationFailed" for ctx t e' t'
    by (auto simp: generateResponse_def Let_def split: if_splits option.splits)
  obtain docs tr1 where s: "searchSimilarDocuments env avail query 5 tr = (docs, tr1)"
    by (cases "searchSimilarDocuments env avail query 5 tr")
  obtain r tr2 where r: "generateResponse env query (if docs = [] then [] else docs) h tr1 = (r, tr2)"
    by (cases "generateResponse env query (if docs = [] then [] else docs) h tr1")
  from assms s r have "r = Inl e"
    by (cases avail; cases r) (auto simp: processQuery_def Let_def split: if_splits)
  with r g show ?thesis by blast
qed

text \<open>
  A request that passes the checks goes through the cache lookup; an entry written with
  a time to live is read back until that time has passed.
\<close>

lemma on_message_passed:
  assumes "passes_checks req sock data message"
  shows "on_message env avail req sock data h w =
     (case getCachedQueryResult (cache_get_ok req) (time_of_get req) (cache w)
             (fingerprint (md5_hex env) (stringify env) message h) of
        Some cachedResult \<Rightarrow>
          (deliver req (response cachedResult) (sources cachedResult) True, w)
      | None \<Rightarrow>
          (case processQuery env avail message h (trace w) of
             (Inr result, tr) \<Rightarrow>
               (deliver req (response result) (sources result) False,
                \<lparr> cache = snd (cacheQueryResult (cache_set_ok req) (time_of_set req) (cache w)
                                 (fingerprint (md5_hex env) (stringify env) message h)
                                 result (30 * 60)),
                  trace = tr \<rparr>)
           | (Inl ragError, tr) \<Rightarrow>
               (deliver req apology_text [] False, \<lparr> cache = cache w, trace = tr \<rparr>)))"
proof -
  from assms obtain sid where
    d: "data_message data = Some message" "data_sessionId data = Some sid"
    and ne: "message \<noteq> []" "sid \<noteq> []" and so: "sock = Some sid" and au: "add_user_ok req"
    by (auto simp: passes_checks_def split: option.splits)
  show ?thesis
    by (simp add: on_message_def d ne so au Let_def)
qed

lemma cache_read_after_write:
  assumes "now < t + ttl"
  shows "getCachedQueryResult True now (snd (cacheQueryResult True t store h r ttl)) h = Some r"
  using assms by (simp add: getCachedQueryResult_def cacheQueryResult_def)

lemma empty_cache_miss: "getCachedQueryResult ok now (\<lambda>key. None) h = None"
  by (simp add: getCachedQueryResult_def)

section \<open>The concrete inputs evaluated\<close>

lemma ex_content: "cleanText (replicate n 0x61) = replicate n 0x61"
  by (rule cleanText_words) (simp add: is_word_def)

lemma ex_title: "cleanText (js ''Tom & Jerry'') = js ''Tom  Jerry''"
  by (simp add: cleanText_def js_def trim_def remove_special_def kept_char_def is_word_def
        is_space_def is_basic_punct_def)

lemma ex_process: "processRSSItem ex_ingest_env ex_item source = Some (ex_article source)"
  by (simp add: processRSSItem_def id_key_def js_or_def cleaned_content_def raw_content_def
        or_else_def ex_item_def ex_ingest_env_def ex_article_def ex_content ex_title Let_def
        js_eq_Nil)
     (simp add: js_def)

lemma ex_process_long:
  "processRSSItem ex_ingest_env ex_long_item source =
     Some ((ex_article source) \<lparr> article_content := replicate 6000 0x61 @ js ''...'' \<rparr>)"
  by (simp add: processRSSItem_def id_key_def js_or_def cleaned_content_def raw_content_def
        or_else_def ex_long_item_def ex_item_def ex_ingest_env_def ex_article_def ex_content
        ex_title Let_def js_eq_Nil)
     (simp add: js_def)

lemma ex_cleaned_long: "cleaned_content ex_ingest_env ex_long_item = replicate 6001 0x61"
  by (simp add: cleaned_content_def raw_content_def js_or_def ex_long_item_def ex_item_def
        ex_content Let_def)

lemma ex_ingest: "ingestFromRSS ex_ingest_env source = [ex_article source]"
proof -
  have "parseURL ex_ingest_env (src_url source) = Some [ex_item]"
    by (simp add: ex_ingest_env_def)
  then show ?thesis
    by (simp add: ingestFromRSS_def List.map_filter_def ex_process)
qed

lemma ex_dedup:
  "ingestWithDeduplication_collect ex_ingest_env [ex_source_a, ex_source_b] =
     [ex_article ex_source_a]"
  by (simp add: ingestWithDeduplication_collect_def ex_ingest urlKey_def titleKey_def
        ex_article_def Let_def)

lemma ex_store:
  "storeBatchDocuments ex_rag_env [a] [] =
     (Inr [article_id a],
      [EmbedCall (article_content a), UpsertCall [make_point ex_rag_env a [1, 0]]])"
proof -
  have g: "generateEmbedding ex_rag_env t tr = (Inr [1, 0], tr @ [EmbedCall t])" for t tr
    by (simp add: generateEmbedding_def ex_rag_env_def js_eq_Nil)
  have u: "qdrant_upsert ex_rag_env ps" for ps
    by (simp add: ex_rag_env_def)
  have n: "storeBatchDocuments ex_rag_env [] t = (Inr [], t)" for t
    by (simp add: storeBatchDocuments.simps [of _ "[]"])
  show ?thesis
    by (simp add: storeBatchDocuments.simps [of _ "[a]"] g u n make_point_def)
qed

lemma ex_store_two:
  "storeBatchDocuments ex_rag_env [a, b] [] =
     (Inr [article_id a, article_id b],
      [EmbedCall (article_content a), EmbedCall (article_content b),
       UpsertCall [make_point ex_rag_env a [1, 0], make_point ex_rag_env b [1, 0]]])"
proof -
  have g: "generateEmbedding ex_rag_env t tr = (Inr [1, 0], tr @ [EmbedCall t])" for t tr
    by (simp add: generateEmbedding_def ex_rag_env_def js_eq_Nil)
  have u: "qdrant_upsert ex_rag_env ps" for ps
    by (simp add: ex_rag_env_def)
  have n: "storeBatchDocuments ex_rag_env [] t = (Inr [], t)" for t
    by (simp add: storeBatchDocuments.simps [of _ "[]"])
  show ?thesis
    by (simp add: storeBatchDocuments.simps [of _ "[a, b]"] g u n make_point_def)
qed

lemma ex_fingerprint:
  "fingerprint (md5_hex ex_rag_env) (stringify ex_rag_env) ex_message [] = ex_hash"
  by (simp add: fingerprint_def ex_rag_env_def ex_message_def ex_hash_def slice_last_def js_def)

lemma ex_fingerprint_down:
  "fingerprint (md5_hex ex_rag_env_down) (stringify ex_rag_env_down) ex_message [] = ex_hash"
  using ex_fingerprint by (simp add: ex_rag_env_down_def)

lemma ex_fingerprint_empty:
  "fingerprint (md5_hex ex_rag_env_empty) (stringify ex_rag_env_empty) ex_message [] = ex_hash"
  using ex_fingerprint by (simp add: ex_rag_env_empty_def)

lemma ex_search_contract:
  "ex_search v limit threshold = Some hits \<Longrightarrow>
     length hits \<le> limit \<and> (\<forall>h\<in>set hits. threshold \<le> hit_score h)"
  by (auto simp: ex_search_def dest: in_set_takeD)

lemma ex_search_5:
  "ex_search v 5 score_threshold = Some [ex_hit ''p1'' (9 / 10), ex_hit ''p2'' (8 / 10)]"
  by (simp add: ex_search_def ex_points_def ex_hit_def score_threshold_def)

lemma ex_searchSimilar:
  "searchSimilarDocuments ex_rag_env True ex_message 5 tr = (ex_docs, tr @ ex_search_trace)"
  by (simp add: searchSimilarDocuments_def generateEmbedding_def ex_rag_env_def ex_search_5
        ex_docs_def ex_search_trace_def js_eq_Nil)
     (simp add: score_threshold_def)

lemma ex_searchSimilar_down:
  "searchSimilarDocuments ex_rag_env_down True ex_message 5 tr = (ex_docs, tr @ ex_search_trace)"
  by (simp add: searchSimilarDocuments_def generateEmbedding_def ex_rag_env_down_def
        ex_rag_env_def ex_search_5 ex_docs_def ex_search_trace_def js_eq_Nil)
     (simp add: score_threshold_def)

lemma ex_searchSimilar_empty:
  "searchSimilarDocuments ex_rag_env_empty True ex_message 5 tr = ([], tr @ ex_search_trace)"
  by (simp add: searchSimilarDocuments_def generateEmbedding_def ex_rag_env_empty_def
        ex_rag_env_def ex_search_trace_def js_eq_Nil score_threshold_def)

lemma ex_docs_length: "length ex_docs = 2"
  by (simp add: ex_docs_def)

lemma ex_docs_ne: "ex_docs \<noteq> []"
  by (simp add: ex_docs_def)

lemma ex_answer_ne: "ex_answer \<noteq> []"
  by (simp add: ex_answer_def js_eq_Nil)

lemma ex_processQuery:
  "processQuery ex_rag_env True ex_message [] tr =
     (Inr ex_result,
      tr @ ex_search_trace @ [GenerateCall (build_prompt ex_message ex_docs [])])"
proof -
  have g: "generateResponse ex_rag_env ex_message ex_docs [] (tr @ ex_search_trace) =
      (Inr \<lparr> gen_response = ex_answer, gen_sources = map source_of ex_docs \<rparr>,
       (tr @ ex_search_trace) @ [GenerateCall (build_prompt ex_message ex_docs [])])"
    by (simp add: generateResponse_def ex_rag_env_def js_eq_Nil Let_def)
  show ?thesis
    by (simp add: processQuery_def ex_searchSimilar ex_docs_length ex_docs_ne g ex_fingerprint
          ex_result_def Let_def)
qed

lemma ex_processQuery_down:
  "processQuery ex_rag_env_down True ex_message [] tr =
     (Inl GenerationFailed,
      tr @ ex_search_trace @ [GenerateCall (build_prompt ex_message ex_docs [])])"
proof -
  have g: "generateResponse ex_rag_env_down ex_message ex_docs [] (tr @ ex_search_trace) =
      (Inl GenerationFailed,
       (tr @ ex_search_trace) @ [GenerateCall (build_prompt ex_message ex_docs [])])"
    by (simp add: generateResponse_def ex_rag_env_down_def ex_rag_env_def js_eq_Nil Let_def)
  show ?thesis
    by (simp add: processQuery_def ex_searchSimilar_down ex_docs_length ex_docs_ne g Let_def)
qed

lemma ex_processQuery_empty:
  "processQuery ex_rag_env_empty True ex_message [] tr =
     (Inr \<lparr> response = ex_answer, sources = [], queryHash = ex_hash, relevantDocsCount = 0 \<rparr>,
      tr @ ex_search_trace @ [GenerateCall (empty_prompt ex_message [])])"
proof -
  have g: "generateResponse ex_rag_env_empty ex_message [] [] (tr @ ex_search_trace) =
      (Inr \<lparr> gen_response = ex_answer, gen_sources = [] \<rparr>,
       (tr @ ex_search_trace) @ [GenerateCall (empty_prompt ex_message [])])"
    by (simp add: generateResponse_def ex_rag_env_empty_def ex_rag_env_def js_eq_Nil Let_def
          build_prompt_def)
  show ?thesis
    by (simp add: processQuery_def ex_searchSimilar_empty g ex_fingerprint_empty ex_answer_ne
          Let_def)
qed

lemma ex_passes: "passes_checks ex_request (Some (js ''s1'')) ex_data ex_message"
  by (simp add: passes_checks_def ex_request_def ex_data_def ex_message_def js_eq_Nil)

lemma ex_passes_later: "passes_checks ex_request_later (Some (js ''s1'')) ex_data ex_message"
  by (simp add: passes_checks_def ex_request_later_def ex_request_def ex_data_def
        ex_message_def js_eq_Nil)

text \<open>
  The handler on the first request of the session: with the working provider the answer
  is cached; with the failing provider the apology is sent and nothing is cached, and a
  second request then runs the pipeline again.
\<close>

lemma ex_first_run:
  "on_message ex_rag_env True ex_request (Some (js ''s1'')) ex_data [] ex_world =
     (AssistantMessage \<lparr> msg_content = ex_answer, msg_sources = map source_of ex_docs,
                         msg_cached = False \<rparr>,
      \<lparr> cache = (\<lambda>key. None)(cache_key ex_hash \<mapsto>
                  \<lparr> entry_value = ex_result, entry_expires = 1 + 30 * 60 \<rparr>),
        trace = ex_search_trace @ [GenerateCall (build_prompt ex_message ex_docs [])] \<rparr>)"
proof -
  have w: "trace ex_world = []" "cache ex_world = (\<lambda>key. None)"
    by (simp_all add: ex_world_def)
  have r: "add_assistant_ok ex_request" "cache_set_ok ex_request" "time_of_set ex_request = 1"
    by (simp_all add: ex_request_def)
  show ?thesis
    by (simp add: on_message_passed [OF ex_passes] w r empty_cache_miss ex_processQuery
          deliver_def cacheQueryResult_def ex_fingerprint ex_result_def)
qed

lemma ex_first_down:
  "on_message ex_rag_env_down True ex_request (Some (js ''s1'')) ex_data [] ex_world =
     (AssistantMessage \<lparr> msg_content = apology_text, msg_sources = [], msg_cached = False \<rparr>,
      \<lparr> cache = (\<lambda>key. None),
        trace = ex_search_trace @ [GenerateCall (build_prompt ex_message ex_docs [])] \<rparr>)"
proof -
  have w: "trace ex_world = []" "cache ex_world = (\<lambda>key. None)"
    by (simp_all add: ex_world_def)
  have r: "add_assistant_ok ex_request" by (simp add: ex_request_def)
  show ?thesis
    by (simp add: on_message_passed [OF ex_passes] w r empty_cache_miss ex_processQuery_down
          deliver_def)
qed

lemma ex_second_after_down:
  "on_message ex_rag_env True ex_request_later (Some (js ''s1'')) ex_data []
     \<lparr> cache = (\<lambda>key. None),
       trace = ex_search_trace @ [GenerateCall (build_prompt ex_message ex_docs [])] \<rparr> =
     (AssistantMessage \<lparr> msg_content = ex_answer, msg_sources = map source_of ex_docs,
                         msg_cached = False \<rparr>,
      \<lparr> cache = (\<lambda>key. None)(cache_key ex_hash \<mapsto>
                  \<lparr> entry_value = ex_result, entry_expires = 101 + 30 * 60 \<rparr>),
        trace = (ex_search_trace @ [GenerateCall (build_prompt ex_message ex_docs [])])
                @ ex_search_trace @ [GenerateCall (build_prompt ex_message ex_docs [])] \<rparr>)"
proof -
  have r: "add_assistant_ok ex_request_later" "cache_set_ok ex_request_later"
    "time_of_set ex_request_later = 101"
    by (simp_all add: ex_request_later_def ex_request_def)
  show ?thesis
    by (simp add: on_message_passed [OF ex_passes_later] empty_cache_miss ex_processQuery deliver_def r
          cacheQueryResult_def ex_fingerprint ex_result_def)
qed

section \<open>The claims\<close>

subsection \<open>C1: the query cache\<close>

text \<open>
  C1, as the handler and the cache implement it. Take two requests with the same message
  whose histories agree on the last three turns. If the first request misses the cache,
  \<open>processQuery\<close> returns a result for it and the cache write succeeds, and the second
  request reads the cache less than 30 minutes after that write, then both requests
  compute the same fingerprint, the MD5 digest of the message followed by the JSON of the
  last three turns; the second request takes the response text and the sources of the
  first from the cache, unchanged, and emits them marked as cached when the reply can be
  stored in the chat history, and an error event when it cannot; the second request
  makes no call at all (the world is returned as it was); and the first made at most one
  call to the generation provider.
\<close>

theorem repeated_query_served_from_cache:
  assumes first: "passes_checks req1 sock1 data1 message"
    and miss: "getCachedQueryResult (cache_get_ok req1) (time_of_get req1) (cache w0)
                 (fingerprint (md5_hex env1) (stringify env1) message h1) = None"
    and ran: "processQuery env1 avail1 message h1 (trace w0) = (Inr r, tr1)"
    and stored: "cache_set_ok req1"
    and w1: "w1 = snd (on_message env1 avail1 req1 sock1 data1 h1 w0)"
    and second: "passes_checks req2 sock2 data2 message"
    and readable: "cache_get_ok req2"
    and same_history: "slice_last 3 h2 = slice_last 3 h1"
    and same_lib: "md5_hex env2 = md5_hex env1" "stringify env2 = stringify env1"
    and in_ttl: "time_of_get req2 < time_of_set req1 + 30 * 60"
  shows "fingerprint (md5_hex env2) (stringify env2) message h2 =
           fingerprint (md5_hex env1) (stringify env1) message h1
         \<and> fingerprint (md5_hex env1) (stringify env1) message h1 =
             md5_hex env1 (message @ stringify env1 (slice_last 3 h1))
         \<and> fst (on_message env1 avail1 req1 sock1 data1 h1 w0) =
             (if add_assistant_ok req1
              then AssistantMessage \<lparr> msg_content = response r, msg_sources = sources r,
                                       msg_cached = False \<rparr>
              else ErrorEvent (js ''Failed to process message''))
         \<and> on_message env2 avail2 req2 sock2 data2 h2 w1 =
             ((if add_assistant_ok req2
               then AssistantMessage \<lparr> msg_content = response r, msg_sources = sources r,
                                        msg_cached = True \<rparr>
               else ErrorEvent (js ''Failed to process message'')),
              w1)
         \<and> generate_calls (trace w1) \<le> generate_calls (trace w0) + 1"
proof -
  let ?fp = "fingerprint (md5_hex env1) (stringify env1) message h1"
  have fp: "fingerprint (md5_hex env2) (stringify env2) message h2 = ?fp"
    using same_history same_lib by (simp add: fingerprint_def)
  have fp_def: "?fp = md5_hex env1 (message @ stringify env1 (slice_last 3 h1))"
    by (simp add: fingerprint_def)
  have run1: "on_message env1 avail1 req1 sock1 data1 h1 w0 =
      (deliver req1 (response r) (sources r) False,
       \<lparr> cache = snd (cacheQueryResult True (time_of_set req1) (cache w0) ?fp r (30 * 60)),
         trace = tr1 \<rparr>)"
    using miss ran stored by (simp add: on_message_passed [OF first])
  then have c1: "cache w1 = snd (cacheQueryResult True (time_of_set req1) (cache w0) ?fp r (30 * 60))"
    and t1: "trace w1 = tr1"
    by (simp_all add: w1)
  have hit: "getCachedQueryResult (cache_get_ok req2) (time_of_get req2) (cache w1) ?fp = Some r"
    using readable in_ttl by (simp add: c1 cache_read_after_write)
  have run2: "on_message env2 avail2 req2 sock2 data2 h2 w1 =
      (deliver req2 (response r) (sources r) True, w1)"
    by (simp add: on_message_passed [OF second] fp hit)
  have "generate_calls tr1 \<le> generate_calls (trace w0) + 1"
    using ran by (rule processQuery_calls)
  with fp fp_def run1 run2 t1 show ?thesis by (simp add: deliver_def)
qed

theorem repeated_query_served_from_cache_witness:
  "passes_checks ex_request (Some (js ''s1'')) ex_data ex_message
   \<and> getCachedQueryResult (cache_get_ok ex_request) (time_of_get ex_request) (cache ex_world)
       (fingerprint (md5_hex ex_rag_env) (stringify ex_rag_env) ex_message []) = None
   \<and> fst (processQuery ex_rag_env True ex_message [] (trace ex_world)) = Inr ex_result
   \<and> cache_set_ok ex_request
   \<and> passes_checks ex_request_later (Some (js ''s1'')) ex_data ex_message
   \<and> cache_get_ok ex_request_later
   \<and> time_of_get ex_request_later < time_of_set ex_request + 30 * 60
   \<and> on_message ex_rag_env True ex_request_later (Some (js ''s1'')) ex_data []
         (snd (on_message ex_rag_env True ex_request (Some (js ''s1'')) ex_data [] ex_world)) =
       (AssistantMessage \<lparr> msg_content = ex_answer, msg_sources = map source_of ex_docs,
                           msg_cached = True \<rparr>,
        snd (on_message ex_rag_env True ex_request (Some (js ''s1'')) ex_data [] ex_world))
   \<and> generate_calls
         (trace (snd (on_message ex_rag_env True ex_request (Some (js ''s1'')) ex_data []
                        ex_world))) = 1"
proof -
  have w: "trace ex_world = []" by (simp add: ex_world_def)
  have miss: "getCachedQueryResult (cache_get_ok ex_request) (time_of_get ex_request)
                (cache ex_world)
                (fingerprint (md5_hex ex_rag_env) (stringify ex_rag_env) ex_message []) = None"
    by (simp add: ex_world_def empty_cache_miss)
  have ran: "processQuery ex_rag_env True ex_message [] (trace ex_world) =
      (Inr ex_result, [] @ ex_search_trace @ [GenerateCall (build_prompt ex_message ex_docs [])])"
    unfolding w by (rule ex_processQuery)
  have flags: "cache_set_ok ex_request" "cache_get_ok ex_request_later"
    "add_assistant_ok ex_request_later"
    by (simp_all add: ex_request_def ex_request_later_def)
  have ttl: "time_of_get ex_request_later < time_of_set ex_request + 30 * 60"
    by (simp add: ex_request_def ex_request_later_def)
  note inst = repeated_query_served_from_cache
    [OF ex_passes miss ran flags(1) refl ex_passes_later flags(2) refl refl refl ttl,
     of True]
  have calls: "generate_calls
         (trace (snd (on_message ex_rag_env True ex_request (Some (js ''s1'')) ex_data []
                        ex_world))) = 1"
    by (simp add: ex_first_run generate_calls_def ex_search_trace_def)
  show ?thesis
    using inst miss ran flags ttl calls ex_passes ex_passes_later
    by (simp add: ex_result_def)
qed

text \<open>
  C1 as stated does not hold for every pair of such requests: when the generation
  provider fails on the first request, the handler sends the apology and caches nothing,
  so the same request 100 seconds later is not answered from the cache and calls the
  generation provider a second time.
\<close>

theorem failed_generation_is_repeated:
  "time_of_get ex_request_later < time_of_set ex_request + 30 * 60
   \<and> fst (on_message ex_rag_env True ex_request_later (Some (js ''s1'')) ex_data []
           (snd (on_message ex_rag_env_down True ex_request (Some (js ''s1'')) ex_data []
                   ex_world))) =
       AssistantMessage \<lparr> msg_content = ex_answer, msg_sources = map source_of ex_docs,
                          msg_cached = False \<rparr>
   \<and> generate_calls
        (trace (snd (on_message ex_rag_env True ex_request_later (Some (js ''s1'')) ex_data []
                  (snd (on_message ex_rag_env_down True ex_request (Some (js ''s1'')) ex_data []
                          ex_world))))) = 2"
proof -
  have ttl: "time_of_get ex_request_later < time_of_set ex_request + 30 * 60"
    by (simp add: ex_request_def ex_request_later_def)
  have count: "generate_calls
      ((ex_search_trace @ [GenerateCall (build_prompt ex_message ex_docs [])])
       @ ex_search_trace @ [GenerateCall (build_prompt ex_message ex_docs [])]) = 2"
    by (simp add: generate_calls_def ex_search_trace_def)
  show ?thesis
    unfolding ex_first_down snd_conv ex_second_after_down fst_conv world.simps count
    using ttl by simp
qed

subsection \<open>C2: vector store unavailable\<close>

text \<open>
  C2: when the vector store is marked unavailable, \<open>processQuery\<close> returns the fixed
  advisory text with no sources and a count of 0, and the list of calls is returned as it
  was: neither the embedding provider nor the search (nor the generation provider) is
  called.
\<close>

theorem unavailable_store_short_circuit:
  assumes "\<not> isQdrantAvailable"
  shows "processQuery env isQdrantAvailable query chatHistory tr =
           (Inr \<lparr> response = advisory_text, sources = [],
                  queryHash = md5_hex env (query @ stringify env (slice_last 3 chatHistory)),
                  relevantDocsCount = 0 \<rparr>, tr)"
  using assms by (simp add: processQuery_def fingerprint_def Let_def)

theorem unavailable_store_short_circuit_witness:
  "\<not> initialize True False
   \<and> processQuery ex_rag_env (initialize True False) ex_message [] [] =
       (Inr \<lparr> response = advisory_text, sources = [], queryHash = ex_hash,
              relevantDocsCount = 0 \<rparr>, [])"
proof -
  have u: "\<not> initialize True False" by (simp add: initialize_def)
  have "md5_hex ex_rag_env (ex_message @ stringify ex_rag_env (slice_last 3 [])) = ex_hash"
    using ex_fingerprint by (simp add: fingerprint_def)
  with u unavailable_store_short_circuit [OF u, of ex_rag_env ex_message "[]" "[]"]
  show ?thesis by simp
qed

subsection \<open>C3: the relevance gate\<close>

text \<open>
  C3: if the vector store honours the contract of its search (at most \<open>limit\<close> results,
  each with a score at or above the threshold it was given), then
  \<open>searchSimilarDocuments\<close> returns at most \<open>limit\<close> documents and each has a score of at
  least 0.7; a document below the threshold is not in the result.
\<close>

theorem search_relevance_gate:
  assumes contract:
    "\<And>v hits. qdrant_search env v limit score_threshold = Some hits \<Longrightarrow>
        length hits \<le> limit \<and> (\<forall>h\<in>set hits. score_threshold \<le> hit_score h)"
  shows "length (fst (searchSimilarDocuments env avail query limit tr)) \<le> limit \<and>
         (\<forall>d\<in>set (fst (searchSimilarDocuments env avail query limit tr)).
            7 / 10 \<le> doc_score d)"
proof -
  obtain res tr1 where g: "generateEmbedding env query tr = (res, tr1)"
    by (cases "generateEmbedding env query tr")
  show ?thesis
  proof (cases "avail")
    case False
    then show ?thesis by (simp add: searchSimilarDocuments_def)
  next
    case True
    show ?thesis
    proof (cases res)
      case (Inl e)
      with True g show ?thesis by (simp add: searchSimilarDocuments_def)
    next
      case (Inr v)
      show ?thesis
      proof (cases "qdrant_search env v limit score_threshold")
        case None
        with True g Inr show ?thesis by (simp add: searchSimilarDocuments_def)
      next
        case (Some hits)
        from contract [OF Some]
        have "length hits \<le> limit" and "\<forall>h\<in>set hits. 7 / 10 \<le> hit_score h"
          by (simp_all add: score_threshold_def)
        with True g Inr Some show ?thesis
          by (simp add: searchSimilarDocuments_def to_doc_def)
      qed
    qed
  qed
qed

theorem search_relevance_gate_witness:
  "qdrant_search ex_rag_env [1, 0] 5 score_threshold =
     Some [ex_hit ''p1'' (9 / 10), ex_hit ''p2'' (8 / 10)]
   \<and> fst (searchSimilarDocuments ex_rag_env True ex_message 5 []) = ex_docs
   \<and> length ex_docs \<le> 5
   \<and> list_all (\<lambda>d. 7 / 10 \<le> doc_score d) ex_docs
   \<and> map doc_score ex_docs = [9 / 10, 8 / 10]"
proof -
  have c: "qdrant_search ex_rag_env v 5 score_threshold = Some hits \<Longrightarrow>
        length hits \<le> 5 \<and> (\<forall>h\<in>set hits. score_threshold \<le> hit_score h)" for v hits
    using ex_search_contract [of v 5 score_threshold hits] by (simp add: ex_rag_env_def)
  have q: "qdrant_search ex_rag_env [1, 0] 5 score_threshold =
      Some [ex_hit ''p1'' (9 / 10), ex_hit ''p2'' (8 / 10)]"
    using ex_search_5 [of "[1, 0]"] by (simp add: ex_rag_env_def)
  have s: "fst (searchSimilarDocuments ex_rag_env True ex_message 5 []) = ex_docs"
    by (simp add: ex_searchSimilar)
  have m: "map doc_score ex_docs = [9 / 10, 8 / 10]"
    by (simp add: ex_docs_def to_doc_def ex_hit_def)
  from search_relevance_gate [of ex_rag_env 5 True ex_message "[]", OF c]
  have "length ex_docs \<le> 5 \<and> list_all (\<lambda>d. 7 / 10 \<le> doc_score d) ex_docs"
    unfolding s by (simp add: list_all_iff)
  with q s m show ?thesis by simp
qed

subsection \<open>C4: the article id\<close>

text \<open>
  C4: the id of an article is the digest of the first truthy value among link, guid and
  title of its item. Two runs of \<open>processRSSItem\<close> on items with the same key give the
  same id, whatever the page fetch, the clock and the source are, and the point that
  \<open>storeBatchDocuments\<close> builds for the article carries that id, so the second upsert
  addresses the same point.
\<close>

theorem article_id_deterministic:
  assumes "processRSSItem env1 item1 source1 = Some a1"
    and "processRSSItem env2 item2 source2 = Some a2"
    and "md5hex env1 = md5hex env2"
    and "id_key item1 = id_key item2"
  shows "article_id a1 = article_id a2
         \<and> (\<exists>key. (if truthy (item_link item1) then item_link item1
                    else if truthy (item_guid item1) then item_guid item1
                    else item_title item1) = Some key
                  \<and> article_id a1 = md5hex env1 key)
         \<and> point_id (make_point renv1 a1 e1) = point_id (make_point renv2 a2 e2)"
proof -
  from assms(1) obtain k1 where k1: "id_key item1 = Some k1" "article_id a1 = md5hex env1 k1"
    using processRSSItem_id by blast
  from assms(2) obtain k2 where k2: "id_key item2 = Some k2" "article_id a2 = md5hex env2 k2"
    using processRSSItem_id by blast
  from k1 k2 assms(3,4) have same: "article_id a1 = article_id a2" by simp
  from k1 have "(if truthy (item_link item1) then item_link item1
                 else if truthy (item_guid item1) then item_guid item1
                 else item_title item1) = Some k1"
    by (simp add: id_key_first)
  with k1 same show ?thesis by (auto simp: make_point_def)
qed

theorem article_id_deterministic_witness:
  "processRSSItem ex_ingest_env ex_item ex_source_a = Some (ex_article ex_source_a)
   \<and> processRSSItem ex_ingest_env ex_long_item ex_source_b =
       Some ((ex_article ex_source_b) \<lparr> article_content := replicate 6000 0x61 @ js ''...'' \<rparr>)
   \<and> id_key ex_item = id_key ex_long_item
   \<and> article_id (ex_article ex_source_a) =
       article_id ((ex_article ex_source_b) \<lparr> article_content := replicate 6000 0x61 @ js ''...'' \<rparr>)
   \<and> article_id (ex_article ex_source_a) = md5hex ex_ingest_env (js ''https://example.com/a'')"
proof -
  have k: "id_key ex_item = id_key ex_long_item"
    by (simp add: id_key_def ex_long_item_def)
  have l: "item_link ex_item = Some (js ''https://example.com/a'')"
    by (simp add: ex_item_def)
  from article_id_deterministic [OF ex_process ex_process_long refl k] ex_process
    ex_process_long k
  show ?thesis by (simp add: l js_eq_Nil)
qed

subsection \<open>C5: deduplication within a run\<close>

text \<open>
  C5, for the runs of \<open>ingestWithDeduplication\<close>: no two articles of the list handed to
  the storage share a URL key, and no two share a normalised-title key; and no two of the
  points that the run sends to the vector store share either key.
\<close>

theorem deduplicated_run_has_unique_keys:
  "distinct (map urlKey (ingestWithDeduplication_collect env rssSources))
   \<and> distinct (map (titleKey env) (ingestWithDeduplication_collect env rssSources))
   \<and> (\<exists>new. upserted (snd (ingestWithDeduplication env renv rssSources tr)) = upserted tr @ new
             \<and> distinct (map point_urlKey new)
             \<and> distinct (map (point_titleKey env) new))"
proof -
  let ?accepted = "ingestWithDeduplication_collect env rssSources"
  obtain r s' where
    "filter_unique env \<lparr> seenUrls = {}, seenTitles = {} \<rparr>
       (ingestAllSources_collect env rssSources) = (r, s')"
    by (cases "filter_unique env \<lparr> seenUrls = {}, seenTitles = {} \<rparr>
                 (ingestAllSources_collect env rssSources)")
  then have d: "distinct (map urlKey ?accepted)" "distinct (map (titleKey env) ?accepted)"
    using filter_unique_distinct by (simp_all add: dedup_is_filter)
  let ?tr' = "snd (ingestWithDeduplication env renv rssSources tr)"
  have run: "?tr' = snd (store_collected renv ?accepted tr)"
    by (simp add: ingestWithDeduplication_def)
  have "\<exists>new. upserted (snd (store_collected renv ?accepted tr)) = upserted tr @ new \<and>
          (distinct (map urlKey ?accepted) \<longrightarrow> distinct (map point_urlKey new))"
    by (rule store_collected_keys) (simp add: make_point_def point_urlKey_def urlKey_def)
  with d(1) run obtain new1 where
    n1: "upserted ?tr' = upserted tr @ new1" "distinct (map point_urlKey new1)"
    by auto
  have "\<exists>new. upserted (snd (store_collected renv ?accepted tr)) = upserted tr @ new \<and>
          (distinct (map (titleKey env) ?accepted) \<longrightarrow>
           distinct (map (point_titleKey env) new))"
    by (rule store_collected_keys) (simp add: make_point_def point_titleKey_def titleKey_def)
  with d(2) run obtain new2 where
    n2: "upserted ?tr' = upserted tr @ new2" "distinct (map (point_titleKey env) new2)"
    by auto
  from n1(1) n2(1) have "new2 = new1" by simp
  with n1 n2(2) d show ?thesis by blast
qed

theorem deduplicated_run_has_unique_keys_witness:
  "ingestWithDeduplication_collect ex_ingest_env [ex_source_a, ex_source_b] =
     [ex_article ex_source_a]
   \<and> distinct (map urlKey (ingestWithDeduplication_collect ex_ingest_env
                              [ex_source_a, ex_source_b]))
   \<and> distinct (map (titleKey ex_ingest_env)
                 (ingestWithDeduplication_collect ex_ingest_env [ex_source_a, ex_source_b]))
   \<and> upserted (snd (ingestWithDeduplication ex_ingest_env ex_rag_env
                        [ex_source_a, ex_source_b] [])) =
       [make_point ex_rag_env (ex_article ex_source_a) [1, 0]]"
proof -
  have "upserted (snd (ingestWithDeduplication ex_ingest_env ex_rag_env
                        [ex_source_a, ex_source_b] [])) =
       [make_point ex_rag_env (ex_article ex_source_a) [1, 0]]"
    by (simp add: ingestWithDeduplication_def store_collected_def ex_dedup ex_store)
  with deduplicated_run_has_unique_keys
         [of ex_ingest_env "[ex_source_a, ex_source_b]" ex_rag_env "[]"] ex_dedup
  show ?thesis by simp
qed

text \<open>
  C5 as stated speaks of every ingestion run. A run of \<open>ingestAllSources\<close> has no
  deduplication: two sources that deliver the same item both contribute an article, the
  two share the URL key and the title key, and the run reports two articles collected
  and two stored.
\<close>

theorem ingestAllSources_keeps_duplicates:
  "ingestAllSources_collect ex_ingest_env [ex_source_a, ex_source_b] =
     [ex_article ex_source_a, ex_article ex_source_b]
   \<and> urlKey (ex_article ex_source_a) = urlKey (ex_article ex_source_b)
   \<and> titleKey ex_ingest_env (ex_article ex_source_a) =
       titleKey ex_ingest_env (ex_article ex_source_b)
   \<and> fst (ingestAllSources ex_ingest_env ex_rag_env [ex_source_a, ex_source_b] []) =
       Inr \<lparr> totalCollected = 2, totalStored = 2 \<rparr>"
proof -
  have c: "ingestAllSources_collect ex_ingest_env [ex_source_a, ex_source_b] =
     [ex_article ex_source_a, ex_article ex_source_b]"
    by (simp add: ingestAllSources_collect_def ex_ingest)
  have "fst (ingestAllSources ex_ingest_env ex_rag_env [ex_source_a, ex_source_b] []) =
       Inr \<lparr> totalCollected = 2, totalStored = 2 \<rparr>"
    by (simp add: ingestAllSources_def store_collected_def c ex_store_two)
  with c show ?thesis
    by (simp add: urlKey_def titleKey_def ex_article_def)
qed

subsection \<open>C6: truncation of the content\<close>

text \<open>
  C6: for an item that has an id key and at least 100 characters of cleaned content,
  \<open>processRSSItem\<close> returns an article whose content is the first 6000 characters of the
  cleaned content followed by \<open>...\<close> when the cleaned content is longer than 6000
  characters, and the cleaned content itself otherwise.
\<close>

theorem content_truncated_at_6000:
  assumes "id_key item = Some key" and "100 \<le> length (cleaned_content env item)"
  shows "\<exists>a. processRSSItem env item source = Some a \<and>
             article_content a =
               (if 6000 < length (cleaned_content env item)
                then take 6000 (cleaned_content env item) @ js ''...''
                else cleaned_content env item)"
  using assms by (simp add: processRSSItem_def Let_def)

theorem content_truncated_at_6000_witness:
  "id_key ex_long_item = Some (js ''https://example.com/a'')
   \<and> 100 \<le> length (cleaned_content ex_ingest_env ex_long_item)
   \<and> (\<exists>a. processRSSItem ex_ingest_env ex_long_item ex_source_a = Some a \<and>
            article_content a = replicate 6000 0x61 @ js ''...'')"
proof -
  have k: "id_key ex_long_item = Some (js ''https://example.com/a'')"
    by (simp add: id_key_def js_or_def ex_long_item_def ex_item_def js_eq_Nil)
  have l: "100 \<le> length (cleaned_content ex_ingest_env ex_long_item)"
    by (simp add: ex_cleaned_long)
  from content_truncated_at_6000 [OF k l, of ex_source_a] k l
  show ?thesis by (simp add: ex_cleaned_long)
qed

subsection \<open>C7: no candidate\<close>

text \<open>
  C7, as \<open>processQuery\<close> implements it. When the search gives no document and a Gemini
  key is configured, the generation provider is called once, with the prompt that has no
  article context and says that the news database is empty. If the provider answers, the
  result carries the provider's text (the fixed no-articles message when that text is
  empty), no sources and a count of 0; if the provider fails, or no key is configured,
  \<open>processQuery\<close> throws.
\<close>

theorem no_candidates_path:
  assumes "searchSimilarDocuments env True query 5 tr = ([], tr1)"
  shows "processQuery env True query chatHistory tr =
     (if \<not> truthy (geminiApiKey env) then (Inl GeminiKeyMissing, tr1)
      else (case gemini_generate env (empty_prompt query chatHistory) of
              None \<Rightarrow>
                (Inl GenerationFailed, tr1 @ [GenerateCall (empty_prompt query chatHistory)])
            | Some generatedText \<Rightarrow>
                (Inr \<lparr> response = (if generatedText \<noteq> [] then generatedText
                                   else no_articles_text),
                       sources = [],
                       queryHash = fingerprint (md5_hex env) (stringify env) query chatHistory,
                       relevantDocsCount = 0 \<rparr>,
                 tr1 @ [GenerateCall (empty_prompt query chatHistory)])))"
  using assms
  by (simp add: processQuery_def generateResponse_def build_prompt_def Let_def
           split: option.splits)

theorem no_candidates_path_witness:
  "searchSimilarDocuments ex_rag_env_empty True ex_message 5 [] = ([], ex_search_trace)
   \<and> processQuery ex_rag_env_empty True ex_message [] [] =
       (Inr \<lparr> response = ex_answer, sources = [], queryHash = ex_hash,
              relevantDocsCount = 0 \<rparr>,
        ex_search_trace @ [GenerateCall (empty_prompt ex_message [])])"
proof -
  have s: "searchSimilarDocuments ex_rag_env_empty True ex_message 5 [] = ([], ex_search_trace)"
    using ex_searchSimilar_empty [of "[]"] by simp
  have e: "truthy (geminiApiKey ex_rag_env_empty)"
    "gemini_generate ex_rag_env_empty p = Some ex_answer" for p
    by (simp_all add: ex_rag_env_empty_def ex_rag_env_def js_eq_Nil)
  from no_candidates_path [OF s, of "[]"] s
  show ?thesis by (simp add: e ex_answer_ne ex_fingerprint_empty)
qed

text \<open>
  C7 as stated says that the returned text states that no grounding data was found. The
  text is whatever the provider returns: with a provider that answers with a headline,
  the result of a query without candidates is that headline.
\<close>

theorem no_candidates_reply_is_provider_text:
  "fst (searchSimilarDocuments ex_rag_env_empty True ex_message 5 []) = []
   \<and> fst (processQuery ex_rag_env_empty True ex_message [] []) =
       Inr \<lparr> response = js ''The top story today is a new phone launch.'', sources = [],
             queryHash = ex_hash, relevantDocsCount = 0 \<rparr>"
  by (simp add: ex_searchSimilar_empty ex_processQuery_empty ex_answer_def)

subsection \<open>C8: failure of the generation provider\<close>

text \<open>
  C8, as the socket handler implements it. When \<open>processQuery\<close> throws on a request that
  passed the checks and missed the cache (the error is then one of \<open>generateResponse\<close>),
  the handler writes nothing to the cache and emits the fixed apology with an empty list
  of sources, not marked as cached; when the apology cannot be stored in the history, it
  emits an error event instead. In both cases the error stays inside the handler.
\<close>

theorem generation_failure_reply:
  assumes "passes_checks req sock data message"
    and "getCachedQueryResult (cache_get_ok req) (time_of_get req) (cache w)
           (fingerprint (md5_hex env) (stringify env) message h) = None"
    and "processQuery env avail message h (trace w) = (Inl e, tr)"
  shows "on_message env avail req sock data h w =
           ((if add_assistant_ok req
             then AssistantMessage \<lparr> msg_content = apology_text, msg_sources = [],
                                      msg_cached = False \<rparr>
             else ErrorEvent (js ''Failed to process message'')),
            \<lparr> cache = cache w, trace = tr \<rparr>)
         \<and> (e = GeminiKeyMissing \<or> e = GenerationFailed)"
  using assms(2-3) processQuery_errors [OF assms(3)]
  by (simp add: on_message_passed [OF assms(1)] deliver_def)

theorem generation_failure_reply_witness:
  "passes_checks ex_request (Some (js ''s1'')) ex_data ex_message
   \<and> getCachedQueryResult (cache_get_ok ex_request) (time_of_get ex_request) (cache ex_world)
        (fingerprint (md5_hex ex_rag_env_down) (stringify ex_rag_env_down) ex_message []) = None
   \<and> fst (processQuery ex_rag_env_down True ex_message [] (trace ex_world)) =
        Inl GenerationFailed
   \<and> add_assistant_ok ex_request
   \<and> fst (on_message ex_rag_env_down True ex_request (Some (js ''s1'')) ex_data [] ex_world) =
        AssistantMessage \<lparr> msg_content = apology_text, msg_sources = [], msg_cached = False \<rparr>"
proof -
  have w: "trace ex_world = []" by (simp add: ex_world_def)
  have miss: "getCachedQueryResult (cache_get_ok ex_request) (time_of_get ex_request)
                (cache ex_world)
                (fingerprint (md5_hex ex_rag_env_down) (stringify ex_rag_env_down)
                   ex_message []) = None"
    by (simp add: ex_world_def empty_cache_miss)
  have ran: "processQuery ex_rag_env_down True ex_message [] (trace ex_world) =
      (Inl GenerationFailed,
       [] @ ex_search_trace @ [GenerateCall (build_prompt ex_message ex_docs [])])"
    unfolding w by (rule ex_processQuery_down)
  have ok: "add_assistant_ok ex_request" by (simp add: ex_request_def)
  from generation_failure_reply [OF ex_passes miss ran] ex_passes miss ran ok
  show ?thesis by simp
qed

text \<open>
  C8 as stated says that the retrieved candidates stay attached to the apology. They do
  not: with two documents retrieved and a failing provider, the message emitted has no
  sources.
\<close>

theorem generation_failure_drops_sources:
  "length (fst (searchSimilarDocuments ex_rag_env_down True ex_message 5 [])) = 2
   \<and> fst (processQuery ex_rag_env_down True ex_message [] []) = Inl GenerationFailed
   \<and> fst (on_message ex_rag_env_down True ex_request (Some (js ''s1'')) ex_data [] ex_world) =
        AssistantMessage \<lparr> msg_content = apology_text, msg_sources = [], msg_cached = False \<rparr>"
  by (simp add: ex_searchSimilar_down ex_docs_length ex_processQuery_down ex_first_down)

subsection \<open>C9: the output of \<open>cleanText\<close>\<close>

text \<open>
  C9 says that no output of \<open>cleanText\<close> has two consecutive whitespace characters.
  Whitespace is collapsed before the special characters are removed, so a special
  character between two spaces leaves the two spaces side by side: \<open>Tom & Jerry\<close>
  becomes \<open>Tom  Jerry\<close>. What the output does satisfy is in \<open>cleanText_kept\<close> (every
  character is a letter, a digit, an underscore, a whitespace character or a listed
  punctuation mark), \<open>cleanText_no_markup\<close> (no angle bracket) and \<open>cleanText_trimmed\<close>.
\<close>

theorem cleanText_leaves_whitespace_run:
  "cleanText (js ''Tom & Jerry'') = js ''Tom  Jerry''
   \<and> has_ws_run (cleanText (js ''Tom & Jerry''))"
proof -
  have "has_ws_run (js ''Tom  Jerry'')"
    by (simp add: js_def is_space_def)
  then show ?thesis by (simp add: ex_title)
qed

subsection \<open>C10: sources and count\<close>

text \<open>
  C10: every result that \<open>processQuery\<close> returns has as many sources as its
  \<open>relevantDocsCount\<close> says, and carries the hash computed from the query and the last
  three turns of the history.
\<close>

theorem sources_match_count:
  assumes "processQuery env avail query chatHistory tr = (Inr r, tr')"
  shows "length (sources r) = relevantDocsCount r \<and>
         queryHash r = md5_hex env (query @ stringify env (slice_last 3 chatHistory))"
proof (cases avail)
  case False
  with assms show ?thesis by (auto simp: processQuery_def fingerprint_def Let_def)
next
  case True
  obtain docs tr1 where s: "searchSimilarDocuments env avail query 5 tr = (docs, tr1)"
    by (cases "searchSimilarDocuments env avail query 5 tr")
  show ?thesis
  proof (cases "docs = []")
    case e: True
    obtain g tr2 where g: "generateResponse env query [] chatHistory tr1 = (g, tr2)"
      by (cases "generateResponse env query [] chatHistory tr1")
    from assms True s e g show ?thesis
      by (cases g) (auto simp: processQuery_def fingerprint_def Let_def)
  next
    case ne: False
    obtain g tr2 where g: "generateResponse env query docs chatHistory tr1 = (g, tr2)"
      by (cases "generateResponse env query docs chatHistory tr1")
    then have "\<And>x. g = Inr x \<Longrightarrow> gen_sources x = map source_of docs"
      by (auto simp: generateResponse_def Let_def split: if_splits option.splits)
    with assms True s ne g show ?thesis
      by (cases g) (auto simp: processQuery_def fingerprint_def Let_def)
  qed
qed

theorem sources_match_count_witness:
  "fst (processQuery ex_rag_env True ex_message [] []) = Inr ex_result
   \<and> length (sources ex_result) = 2 \<and> relevantDocsCount ex_result = 2
   \<and> queryHash ex_result =
       md5_hex ex_rag_env (ex_message @ stringify ex_rag_env (slice_last 3 []))"
  using sources_match_count [OF ex_processQuery [of "[]"]] ex_processQuery [of "[]"]
  by (simp add: ex_result_def ex_docs_def)

end
